theory Spec2Isabelle
  imports Main "HOL-Library.Multiset" "HOL-Library.Char_ord" "HOL-Library.List_Lexorder"
    "HOL-Library.Word"
begin

unbundle bit_operations_syntax

section \<open>Python values: exceptions and integer parsing\<close>

text \<open>
  The module \<^verbatim>\<open>horizon_contrib/tables/base.py\<close> is Python 2 code.  Every exception it can
  raise, or let through from the libraries it calls, is a value of \<open>error\<close>; a function that
  can raise returns \<open>error + 'a\<close> with \<open>Inl\<close> for the exception.
\<close>

datatype error =
    ValueError string
  | KeyError string
  | NotImplementedError string
  | Exception string
  | RuntimeError string
  | UnboundLocalError string
  | AttributeError string
  | TypeError string
  | ZeroDivisionError
  | EmptyPage
  | PageNotAnInteger

text \<open>
  \<^verbatim>\<open>int(s)\<close> on a string: surrounding white space is dropped, one sign is allowed, and the
  rest must be a non-empty run of decimal digits; anything else raises \<^verbatim>\<open>ValueError\<close>
  (here \<open>None\<close>).
\<close>

definition isspace :: "char \<Rightarrow> bool" where
  "isspace c \<longleftrightarrow> (of_char c :: nat) = 32 \<or> (9 \<le> (of_char c :: nat) \<and> (of_char c :: nat) \<le> 13)"

definition isdigit :: "char \<Rightarrow> bool" where
  "isdigit c \<longleftrightarrow> 48 \<le> (of_char c :: nat) \<and> (of_char c :: nat) \<le> 57"

definition strip :: "string \<Rightarrow> string" where
  "strip s = rev (dropWhile isspace (rev (dropWhile isspace s)))"

fun digits_value :: "nat \<Rightarrow> string \<Rightarrow> nat" where
  "digits_value acc [] = acc"
| "digits_value acc (c # cs) = digits_value (10 * acc + (of_char c - 48)) cs"

definition parse_digits :: "string \<Rightarrow> nat option" where
  "parse_digits s = (if s \<noteq> [] \<and> list_all isdigit s then Some (digits_value 0 s) else None)"

definition py_int :: "string \<Rightarrow> int option" where
  "py_int s =
     (case strip s of
        [] \<Rightarrow> None
      | c # cs \<Rightarrow>
          if c = CHR ''-'' then map_option (\<lambda>n. - int n) (parse_digits cs)
          else if c = CHR ''+'' then map_option int (parse_digits cs)
          else map_option int (parse_digits (c # cs)))"

text \<open>\<^verbatim>\<open>xs[lo:hi]\<close>: a negative bound counts from the end, and both are clipped to the list.\<close>

definition slice_bound :: "nat \<Rightarrow> int \<Rightarrow> nat" where
  "slice_bound n i = (if i < 0 then nat (max 0 (i + int n)) else min (nat i) n)"

definition py_slice :: "'a list \<Rightarrow> int \<Rightarrow> int \<Rightarrow> 'a list" where
  "py_slice xs lo hi = drop (slice_bound (length xs) lo) (take (slice_bound (length xs) hi) xs)"

section \<open>The page-slicing utility (django.core.paginator)\<close>

text \<open>
  Modelled from the spec: the generic page-slicing utility the pagination adapter consumes
  (``given a sequence and page size, return page objects with bounds-checked access and
  total-page-count'') is \<^verbatim>\<open>django.core.paginator.Paginator\<close>, which is not part of this
  repository.  The definitions below follow that class as \<^verbatim>\<open>base.py\<close> calls it:
  \<^verbatim>\<open>Paginator(object_list, per_page)\<close> with \<^verbatim>\<open>orphans = 0\<close> and
  \<^verbatim>\<open>allow_empty_first_page = True\<close>; \<^verbatim>\<open>per_page = int(per_page)\<close>;
  \<^verbatim>\<open>num_pages = ceil(max(1, count) / float(per_page))\<close>; \<^verbatim>\<open>validate_number\<close> raises
  \<^verbatim>\<open>PageNotAnInteger\<close> for a number \<^verbatim>\<open>int()\<close> refuses and \<^verbatim>\<open>EmptyPage\<close> for one below 1 or
  beyond the last page; \<^verbatim>\<open>page(n)\<close> returns the slice
  \<^verbatim>\<open>object_list[(n-1)*per_page : n*per_page]\<close>, its upper bound clipped to \<^verbatim>\<open>count\<close>.
  The quotient is taken exactly (the library goes through a float).
\<close>

record 'a Paginator =
  object_list :: "'a list"
  per_page :: int

datatype 'a Page = Page (page_object_list: "'a list") (number: int)

definition Paginator_init :: "'a list \<Rightarrow> string \<Rightarrow> error + 'a Paginator" where
  "Paginator_init data per_page_arg =
     (case py_int per_page_arg of
        None \<Rightarrow> Inl (ValueError ''invalid literal for int() with base 10'')
      | Some n \<Rightarrow> Inr \<lparr>object_list = data, per_page = n\<rparr>)"

definition count :: "'a Paginator \<Rightarrow> int" where
  "count p = int (length (object_list p))"

definition num_pages :: "'a Paginator \<Rightarrow> error + int" where
  "num_pages p =
     (if per_page p = 0 then Inl ZeroDivisionError
      else Inr (- ((- max 1 (count p)) div per_page p)))"

definition validate_number :: "'a Paginator \<Rightarrow> int \<Rightarrow> error + int" where
  "validate_number p n =
     (if n < 1 then Inl EmptyPage
      else case num_pages p of
        Inl e \<Rightarrow> Inl e
      | Inr np \<Rightarrow> if n > np then (if n = 1 then Inr n else Inl EmptyPage) else Inr n)"

definition page_at :: "'a Paginator \<Rightarrow> int \<Rightarrow> error + 'a Page" where
  "page_at p n0 =
     (case validate_number p n0 of
        Inl e \<Rightarrow> Inl e
      | Inr n \<Rightarrow>
          let bottom = (n - 1) * per_page p;
              top = bottom + per_page p;
              top' = (if top \<ge> count p then count p else top)
          in Inr (Page (py_slice (object_list p) bottom top') n))"

text \<open>\<^verbatim>\<open>paginator.page(token)\<close> with the page given as a string token.\<close>

definition page_of_token :: "'a Paginator \<Rightarrow> string \<Rightarrow> error + 'a Page" where
  "page_of_token p tok =
     (case py_int tok of None \<Rightarrow> Inl PageNotAnInteger | Some n \<Rightarrow> page_at p n)"

section \<open>PaginationMixin\<close>

text \<open>
  The pager state of a table instance.  \<open>table_data\<close> is what \<^verbatim>\<open>self.get_table_data()\<close>
  returns or raises (the generic query or the table's own override); \<open>paginator_cache\<close> is
  the attribute \<^verbatim>\<open>_paginator\<close>.  Methods that assign attributes return the new state next to
  their result, also when they raise.
\<close>

record 'a PaginationMixin =
  page :: string
  show_all_url :: bool
  PAGINATION_COUNT :: string
  paginator_cache :: "'a Paginator option"
  table_data :: "error + 'a list"

text \<open>The class attributes of \<^verbatim>\<open>PaginationMixin\<close> on a fresh instance.\<close>

definition PaginationMixin_new :: "(error + 'a list) \<Rightarrow> 'a PaginationMixin" where
  "PaginationMixin_new d =
     \<lparr>page = ''1'', show_all_url = True, PAGINATION_COUNT = ''25'',
      paginator_cache = None, table_data = d\<rparr>"

definition get_paginator_data :: "'a PaginationMixin \<Rightarrow> error + 'a list" where
  "get_paginator_data t = table_data t"

definition get_page :: "'a PaginationMixin \<Rightarrow> int option" where
  "get_page t = py_int (page t)"

text \<open>The property \<^verbatim>\<open>paginator\<close>: built on first use, then cached.\<close>

definition paginator :: "'a PaginationMixin \<Rightarrow> (error + 'a Paginator) \<times> 'a PaginationMixin" where
  "paginator t =
     (case paginator_cache t of
        Some p \<Rightarrow> (Inr p, t)
      | None \<Rightarrow>
          (case get_paginator_data t of
             Inl e \<Rightarrow> (Inl e, t)
           | Inr d \<Rightarrow>
               (case Paginator_init d (PAGINATION_COUNT t) of
                  Inl e \<Rightarrow> (Inl e, t)
                | Inr p \<Rightarrow> (Inr p, t\<lparr>paginator_cache := Some p\<rparr>))))"

text \<open>
  What \<^verbatim>\<open>get_page_data\<close> binds to its local \<^verbatim>\<open>objects\<close>: a page of the paginator, or the
  whole dataset.
\<close>

datatype 'a objects = PageObjects "'a Page" | AllObjects "'a list"

text \<open>
  The \<^verbatim>\<open>try\<close> block of \<^verbatim>\<open>get_page_data\<close>: \<open>Inr None\<close> when neither branch assigns
  \<^verbatim>\<open>objects\<close>.
\<close>

definition page_data_try :: "'a Paginator \<Rightarrow> 'a PaginationMixin \<Rightarrow> error + 'a objects option" where
  "page_data_try p t =
     (if page t \<noteq> ''all'' then
        (case page_of_token p (page t) of
           Inl e \<Rightarrow> Inl e
         | Inr pg \<Rightarrow> Inr (Some (PageObjects pg)))
      else if show_all_url t then
        (case get_paginator_data t of
           Inl e \<Rightarrow> Inl e
         | Inr d \<Rightarrow> Inr (Some (AllObjects d)))
      else Inr None)"

text \<open>
  \<^verbatim>\<open>get_page_data\<close> (lines 247--264).  A \<^verbatim>\<open>Paginator\<close> object is always true, so the
  \<^verbatim>\<open>RuntimeError\<close> of line 253 is raised for no input: reading \<^verbatim>\<open>self.paginator\<close> there
  either raises what building the paginator raises, or goes on.  An empty token leaves
  \<^verbatim>\<open>self.page\<close> as it is.  Only \<^verbatim>\<open>EmptyPage\<close> is caught.
\<close>

definition get_page_data :: "string \<Rightarrow> 'a PaginationMixin \<Rightarrow> (error + 'a objects) \<times> 'a PaginationMixin" where
  "get_page_data page_arg t0 =
     (case paginator t0 of
        (Inl e, t1) \<Rightarrow> (Inl e, t1)
      | (Inr p, t1) \<Rightarrow>
          let t2 = (if page_arg \<noteq> [] then t1\<lparr>page := page_arg\<rparr> else t1) in
          (case page_data_try p t2 of
             Inl EmptyPage \<Rightarrow>
               (case num_pages p of
                  Inl e \<Rightarrow> (Inl e, t2)
                | Inr np \<Rightarrow>
                    (case page_at p np of
                       Inl e \<Rightarrow> (Inl e, t2)
                     | Inr pg \<Rightarrow> (Inr (PageObjects pg), t2)))
           | Inl e \<Rightarrow> (Inl e, t2)
           | Inr None \<Rightarrow> (Inl (UnboundLocalError ''objects''), t2)
           | Inr (Some obj) \<Rightarrow> (Inr obj, t2)))"

definition previous_page_number :: "'a PaginationMixin \<Rightarrow> int option" where
  "previous_page_number t = (case get_page t of Some n \<Rightarrow> Some (n - 1) | None \<Rightarrow> None)"

definition next_page_number :: "'a PaginationMixin \<Rightarrow> int option" where
  "next_page_number t = (case get_page t of Some n \<Rightarrow> Some (n + 1) | None \<Rightarrow> None)"

definition has_previous :: "'a PaginationMixin \<Rightarrow> bool" where
  "has_previous t = (case get_page t of Some n \<Rightarrow> (if n = 1 then False else True) | None \<Rightarrow> False)"

definition has_next :: "'a PaginationMixin \<Rightarrow> (error + bool) \<times> 'a PaginationMixin" where
  "has_next t =
     (case get_page t of
        Some n \<Rightarrow>
          (case paginator t of
             (Inl e, t1) \<Rightarrow> (Inl e, t1)
           | (Inr p, t1) \<Rightarrow>
               (case num_pages p of
                  Inl e \<Rightarrow> (Inl e, t1)
                | Inr np \<Rightarrow> (Inr (if n + 1 > np then False else True), t1)))
      | None \<Rightarrow> (Inr False, t))"

definition has_more_data :: "'a PaginationMixin \<Rightarrow> bool" where
  "has_more_data t = False"

section \<open>Ordered dictionaries, plain dictionaries and sets\<close>

text \<open>
  \<^verbatim>\<open>django.utils.datastructures.SortedDict\<close> is a dictionary that iterates in the order
  in which its keys were first inserted: a list of pairs with distinct keys.
  \<^verbatim>\<open>SortedDict(pairs)\<close> takes the position of a repeated key from its first occurrence
  and the value from its last; \<^verbatim>\<open>d[k] = v\<close> replaces in place or appends;
  \<^verbatim>\<open>d.pop(k)\<close> raises \<^verbatim>\<open>KeyError\<close> for a missing key; \<^verbatim>\<open>d.update(other)\<close> assigns
  the items of \<^verbatim>\<open>other\<close> one by one, in the order in which \<^verbatim>\<open>other\<close> iterates.
\<close>

fun SortedDict_setitem :: "'k \<Rightarrow> 'v \<Rightarrow> ('k \<times> 'v) list \<Rightarrow> ('k \<times> 'v) list" where
  "SortedDict_setitem k v [] = [(k, v)]"
| "SortedDict_setitem k v (kv # kvs) =
     (if fst kv = k then (k, v) # kvs else kv # SortedDict_setitem k v kvs)"

definition SortedDict_update :: "('k \<times> 'v) list \<Rightarrow> ('k \<times> 'v) list \<Rightarrow> ('k \<times> 'v) list" where
  "SortedDict_update items d = fold (\<lambda>kv. SortedDict_setitem (fst kv) (snd kv)) items d"

definition SortedDict :: "('k \<times> 'v) list \<Rightarrow> ('k \<times> 'v) list" where
  "SortedDict pairs = SortedDict_update pairs []"

definition SortedDict_pop :: "string \<Rightarrow> (string \<times> 'v) list \<Rightarrow> error + ('v \<times> (string \<times> 'v) list)" where
  "SortedDict_pop k d =
     (case map_of d k of
        None \<Rightarrow> Inl (KeyError k)
      | Some v \<Rightarrow> Inr (v, filter (\<lambda>kv. fst kv \<noteq> k) d))"

text \<open>
  A plain Python 2 \<^verbatim>\<open>dict\<close> (the local \<^verbatim>\<open>columns = {}\<close> of \<^verbatim>\<open>ModelTable.__init__\<close>) is kept
  as the list of its items in insertion order.  It does not iterate in that order: the
  order of \<^verbatim>\<open>iteritems()\<close> follows the hash table.  \<open>dict_order\<close> is that order, a function
  from the keys as inserted to the keys as iterated; the language promises only that it
  is a rearrangement.
\<close>

definition dict_items :: "('k list \<Rightarrow> 'k list) \<Rightarrow> ('k \<times> 'v) list \<Rightarrow> ('k \<times> 'v) list" where
  "dict_items dict_order d =
     concat (map (\<lambda>k. case map_of d k of Some v \<Rightarrow> [(k, v)] | None \<Rightarrow> [])
                 (dict_order (map fst d)))"

text \<open>
  One such order, that of 64-bit CPython 2.7 without hash randomisation, for a dictionary
  small enough to stay in its first table of eight slots (at most five keys) and whose keys
  fall into different slots: iteration walks the slots, and the slot of a string key is its
  hash modulo 8.  The hash of a string starts from its first character shifted left by 7,
  multiplies by 1000003 and xors in each character in turn, and xors in the length at the
  end (byte strings and unicode strings of ASCII characters hash alike).  Where keys
  collide, or beyond five keys, the order depends on the probing sequence, which is not
  modelled: \<open>small_dict_order\<close> then leaves the keys as they are.
\<close>

fun string_hash_loop :: "64 word \<Rightarrow> string \<Rightarrow> 64 word" where
  "string_hash_loop x [] = x"
| "string_hash_loop x (c # cs) = string_hash_loop ((1000003 * x) XOR of_char c) cs"

definition string_hash :: "string \<Rightarrow> 64 word" where
  "string_hash s =
     (case s of
        [] \<Rightarrow> 0
      | c # cs \<Rightarrow>
          let x = string_hash_loop (push_bit 7 (of_char c)) s XOR of_nat (length s)
          in if x = - 1 then - 2 else x)"

definition dict_slot :: "string \<Rightarrow> nat" where
  "dict_slot s = unat (string_hash s AND 7)"

definition small_dict_order :: "string list \<Rightarrow> string list" where
  "small_dict_order ks =
     (if length ks \<le> 5 \<and> distinct (map dict_slot ks) then sort_key dict_slot ks else ks)"

text \<open>
  \<^verbatim>\<open>list(set(xs) | set(ys))\<close>: every element once, in the order \<open>set_order\<close> in which the
  set iterates.
\<close>

definition list_of_set_union :: "('a list \<Rightarrow> 'a list) \<Rightarrow> 'a list \<Rightarrow> 'a list \<Rightarrow> 'a list" where
  "list_of_set_union set_order xs ys = set_order (remdups (xs @ ys))"

text \<open>\<^verbatim>\<open>xs.index(x)\<close>, for an \<open>x\<close> that occurs in \<open>xs\<close>.\<close>

fun index_of :: "'a list \<Rightarrow> 'a \<Rightarrow> nat" where
  "index_of [] x = 0"
| "index_of (y # ys) x = (if y = x then 0 else Suc (index_of ys x))"

section \<open>Columns, actions and table options\<close>

text \<open>
  Modelled from the spec: \<^verbatim>\<open>horizon.tables.Column\<close> and the action classes are the table
  framework's, not this repository's.  A column is the record of section 3 of the
  specification (name, verbose label, bound form field, creation sequence, CSS class tags,
  value filters) with the \<^verbatim>\<open>auto\<close> marker the metaclass passes; \<open>None\<close> as
  \<open>verbose_name\<close> is Python's \<^verbatim>\<open>None\<close>.  \<open>Column_init\<close> is the constructor called with
  the keyword arguments \<^verbatim>\<open>base.py\<close> uses; \<open>counter\<close> is the framework's global creation
  counter at the call.  An action class has a name; two classes may share one.
\<close>

datatype column_filter = filter_m2m

record 'f Column =
  name :: string
  verbose_name :: "string option"
  form_field :: "'f option"
  filters :: "column_filter list"
  classes :: "string list"
  auto :: "string option"
  creation_counter :: nat

definition Column_init ::
  "nat \<Rightarrow> string \<Rightarrow> string option \<Rightarrow> 'f option \<Rightarrow> column_filter list \<Rightarrow> string option \<Rightarrow> 'f Column" where
  "Column_init counter transform verbose field fs au =
     \<lparr>name = transform, verbose_name = verbose, form_field = field, filters = fs,
      classes = [], auto = au, creation_counter = counter\<rparr>"

datatype action_class = ActionClass (class_id: nat) (action_name: string)

datatype action_instance = Instance action_class

text \<open>A value of an attribute \<^verbatim>\<open>model_class\<close>: \<^verbatim>\<open>None\<close>, a content-type string or a model.\<close>

datatype 'm pyref = PyNone | PyStr string | PyModel 'm

fun truthy :: "'m pyref \<Rightarrow> bool" where
  "truthy PyNone = False"
| "truthy (PyStr s) = (s \<noteq> [])"
| "truthy (PyModel m) = True"

text \<open>
  \<^verbatim>\<open>ModelTableOptions\<close>: \<open>model_class\<close> and \<open>order_by\<close> are set by this module, always; the
  other fields are those of the framework's \<^verbatim>\<open>DataTableOptions\<close> that the metaclass reads
  (\<open>filter_action\<close> is \<^verbatim>\<open>_filter_action\<close>).
\<close>

record 'm ModelTableOptions =
  model_class :: "'m pyref"
  order_by :: string
  columns :: "string list option"
  multi_select :: bool
  actions_column :: bool
  browser_table :: "string option"
  row_actions :: "action_class list"
  table_actions :: "action_class list"
  filter_action :: "action_class option"

section \<open>ModelTableMetaclass\<close>

text \<open>An attribute of the class body: a column, or anything else.\<close>

datatype 'f attr = ColumnAttr "'f Column" | OtherAttr

text \<open>
  What \<^verbatim>\<open>__new__\<close> stores in the attributes of the new class.  \<open>cls_columns\<close> is
  \<^verbatim>\<open>_columns\<close>, \<open>meta_filter_action\<close> is \<^verbatim>\<open>_meta._filter_action\<close> after the replacement,
  \<open>attrs_left\<close> are the attributes that stay on the class, and \<open>instantiated\<close> lists the
  action classes whose constructor was called, one entry per call.
\<close>

record 'f table_class =
  base_columns :: "(string \<times> 'f Column) list"
  cls_columns :: "(string \<times> 'f Column) list"
  base_actions :: "(string \<times> action_instance) list"
  meta_filter_action :: "action_instance option"
  attrs_left :: "(string \<times> 'f attr) list"
  instantiated :: "action_class list"

text \<open>Lines 46--53: the columns of the class body, named, tagged and sorted.\<close>

fun gather_columns :: "(string \<times> 'f attr) list \<Rightarrow> (string \<times> 'f Column) list" where
  "gather_columns [] = []"
| "gather_columns ((attr_name, ColumnAttr c) # attrs) =
     (attr_name, c\<lparr>name := attr_name, classes := classes c @ [''normal_column'']\<rparr>)
       # gather_columns attrs"
| "gather_columns ((attr_name, OtherAttr) # attrs) = gather_columns attrs"

fun is_column :: "'f attr \<Rightarrow> bool" where
  "is_column (ColumnAttr c) = True"
| "is_column OtherAttr = False"

definition declared_columns :: "(string \<times> 'f attr) list \<Rightarrow> (string \<times> 'f Column) list" where
  "declared_columns attrs = sort_key (\<lambda>x. creation_counter (snd x)) (gather_columns attrs)"

text \<open>
  Lines 56--58: a base class is \<open>Some\<close> of its \<^verbatim>\<open>base_columns\<close> items, or \<open>None\<close> when it
  has no such attribute.
\<close>

definition inherit_columns ::
  "(string \<times> 'f Column) list option list \<Rightarrow> (string \<times> 'f Column) list \<Rightarrow> (string \<times> 'f Column) list" where
  "inherit_columns bases cols =
     fold (\<lambda>base acc. case base of Some items \<Rightarrow> items @ acc | None \<Rightarrow> acc) (rev bases) cols"

text \<open>Lines 63--68.\<close>

definition check_browser_limits :: "string \<Rightarrow> string option \<Rightarrow> nat \<Rightarrow> error option" where
  "check_browser_limits class_name bt n =
     (if bt = Some ''navigation'' \<and> n > 3
      then Some (ValueError (''You can only assign three column to '' @ class_name @ ''.''))
      else if bt = Some ''content'' \<and> n > 2
      then Some (ValueError (''You can only assign two columns to '' @ class_name @ ''.''))
      else None)"

text \<open>
  Lines 70--77: the loop over a copy of the list pops every pair whose name is not in the
  allow-list; the sort key \<^verbatim>\<open>.index\<close> raises \<^verbatim>\<open>ValueError\<close> for a name that is not
  listed.
\<close>

definition drop_undeclared :: "string list \<Rightarrow> (string \<times> 'v) list \<Rightarrow> (string \<times> 'v) list" where
  "drop_undeclared allow cols =
     fold (\<lambda>column_data acc. if fst column_data \<notin> set allow then remove1 column_data acc else acc)
          cols cols"

definition reorder_declared :: "string list \<Rightarrow> (string \<times> 'v) list \<Rightarrow> error + (string \<times> 'v) list" where
  "reorder_declared allow cols =
     (if list_all (\<lambda>x. fst x \<in> set allow) cols
      then Inr (sort_key (\<lambda>x. index_of allow (fst x)) cols)
      else Inl (ValueError ''x is not in list''))"

definition explicit_columns :: "string list option \<Rightarrow> (string \<times> 'v) list \<Rightarrow> error + (string \<times> 'v) list" where
  "explicit_columns allow_opt cols =
     (case allow_opt of
        None \<Rightarrow> Inr cols
      | Some allow \<Rightarrow> if allow = [] then Inr cols else reorder_declared allow (drop_undeclared allow cols))"

text \<open>Lines 79--90: the generated columns.\<close>

definition add_auto_columns ::
  "nat \<Rightarrow> 'm ModelTableOptions \<Rightarrow> (string \<times> 'f Column) list \<Rightarrow> (string \<times> 'f Column) list" where
  "add_auto_columns counter opts cols =
     (let with_select =
            (if multi_select opts \<and> browser_table opts \<noteq> Some ''navigation''
             then (''multi_select'',
                   (Column_init counter ''multi_select'' (Some []) None [] (Some ''multi_select''))
                     \<lparr>classes := [''multi_select_column'']\<rparr>) # cols
             else cols)
      in if actions_column opts
         then with_select @
                [(''actions'',
                  (Column_init (Suc counter) ''actions'' (Some ''Actions'') None [] (Some ''actions''))
                    \<lparr>classes := [''actions_column'']\<rparr>)]
         else with_select)"

text \<open>Lines 97--104: the action registry.\<close>

definition gather_actions :: "(action_class list \<Rightarrow> action_class list) \<Rightarrow> 'm ModelTableOptions \<Rightarrow> action_class list" where
  "gather_actions set_order opts =
     sort_key action_name (list_of_set_union set_order (row_actions opts) (table_actions opts))"

definition ModelTableMetaclass_new ::
  "(action_class list \<Rightarrow> action_class list) \<Rightarrow> nat \<Rightarrow> string
     \<Rightarrow> (string \<times> 'f Column) list option list \<Rightarrow> (string \<times> 'f attr) list
     \<Rightarrow> 'm ModelTableOptions \<Rightarrow> error + 'f table_class" where
  "ModelTableMetaclass_new set_order counter class_name bases attrs opts =
     (let cols = inherit_columns bases (declared_columns attrs) in
      case check_browser_limits class_name (browser_table opts) (length cols) of
        Some e \<Rightarrow> Inl e
      | None \<Rightarrow>
          (case explicit_columns (columns opts) cols of
             Inl e \<Rightarrow> Inl e
           | Inr kept \<Rightarrow>
               let actions = gather_actions set_order opts;
                   actions_dict = SortedDict (map (\<lambda>a. (action_name a, Instance a)) actions);
                   cls = \<lparr>base_columns = SortedDict cols,
                          cls_columns = SortedDict (add_auto_columns counter opts kept),
                          base_actions = actions_dict,
                          meta_filter_action = None,
                          attrs_left = filter (\<lambda>kv. \<not> is_column (snd kv)) attrs,
                          instantiated = actions\<rparr>
               in (case filter_action opts of
                     None \<Rightarrow> Inr cls
                   | Some fa \<Rightarrow>
                       (case map_of actions_dict (action_name fa) of
                          None \<Rightarrow> Inl (KeyError (action_name fa))
                        | Some inst \<Rightarrow> Inr (cls\<lparr>meta_filter_action := Some inst\<rparr>)))))"

section \<open>ModelTable\<close>

text \<open>
  What \<^verbatim>\<open>ModelTable\<close> consumes from outside the module.
  Modelled from the spec: \<open>get_class\<close> is \<^verbatim>\<open>horizon_contrib.common.content_type.get_class\<close>,
  the lookup of a model by a string, defined outside \<^verbatim>\<open>tables/base.py\<close> (``a string
  identifier resolved via an external content-type registry --- resolution failure
  propagates as-is''); it is a parameter here.
  \<open>fields_for_model\<close>, \<open>many_to_many\<close> (the names of \<^verbatim>\<open>model._meta.many_to_many\<close>),
  \<open>field_label\<close> (the attribute \<^verbatim>\<open>label\<close> of a form field, \<open>None\<close> when it has none) and
  \<open>all_objects_ordered\<close> (\<^verbatim>\<open>model.objects.all().order_by(key)\<close>) are the model-introspection
  facility; \<open>dict_order\<close> is the iteration order of a plain dictionary;
  \<open>settings_PAGINATION_COUNT\<close> is the process-wide setting, when there is one.
\<close>

record ('m, 'f, 'r) framework =
  get_class :: "string \<Rightarrow> error + 'm pyref"
  fields_for_model :: "'m \<Rightarrow> string list option \<Rightarrow> (string \<times> 'f) list"
  many_to_many :: "'m \<Rightarrow> string list"
  field_label :: "'f \<Rightarrow> string option option"
  all_objects_ordered :: "'m \<Rightarrow> string \<Rightarrow> error + 'r list"
  dict_order :: "string list \<Rightarrow> string list"
  settings_PAGINATION_COUNT :: "string option"

text \<open>
  A method slot of a table class: the generic implementation of this module, an override
  of the subclass, or an attribute that is not callable.
\<close>

datatype method_slot = Generic | Override | NotCallable

fun callable :: "method_slot \<Rightarrow> bool" where
  "callable NotCallable = False"
| "callable m = True"

text \<open>
  A table class as \<^verbatim>\<open>__init__\<close> sees it: its name, \<^verbatim>\<open>_meta\<close>, the class attribute
  \<^verbatim>\<open>model_class\<close> (\<open>None\<close> when the class defines none) and the two data-fetch slots.
\<close>

record 'm ModelTable_class =
  class_name :: string
  meta :: "'m ModelTableOptions"
  class_model_class :: "'m pyref option"
  get_table_data_attr :: method_slot
  get_paginator_data_attr :: method_slot

text \<open>
  A table instance: the instance attribute \<^verbatim>\<open>model_class\<close> (\<open>None\<close> until
  \<^verbatim>\<open>_model_class\<close> assigns it), \<^verbatim>\<open>self.columns\<close>, and \<^verbatim>\<open>_columns\<close>, the registry of the
  class, which \<^verbatim>\<open>__init__\<close> changes in place and all instances share.
\<close>

record ('m, 'f) ModelTable =
  self_model_class :: "'m pyref option"
  self_columns :: "(string \<times> 'f Column) list"
  class_columns :: "(string \<times> 'f Column) list"

definition missing_model_class :: string where
  "missing_model_class =
     ''Missing model_class or override one '' @ replicate 28 (CHR '' '')
       @ ''of get_table_data, get_paginator_data''"

definition must_define_get_table_data :: "string \<Rightarrow> string" where
  "must_define_get_table_data cls_name =
     ''You must define either a model_class or'' @ replicate 38 (CHR '' '')
       @ [CHR 0x22] @ ''get_table_data'' @ [CHR 0x22] @ '' method on '' @ cls_name @ ''.''"

definition must_define_get_paginator_data :: "string \<Rightarrow> string" where
  "must_define_get_paginator_data cls_name =
     ''You must define either a model_class '' @ replicate 39 (CHR '' '')
       @ ''or '' @ [CHR 0x22] @ ''get_paginator_data'' @ [CHR 0x22] @ '' method on '' @ cls_name @ ''.''"

text \<open>
  \<^verbatim>\<open>getattr(self, "model_class", d)\<close>: the instance attribute, else the class attribute,
  else \<open>d\<close>; and \<^verbatim>\<open>hasattr(self, "model_class")\<close>.
\<close>

definition getattr_model_class :: "'m ModelTable_class \<Rightarrow> 'm pyref option \<Rightarrow> 'm pyref \<Rightarrow> 'm pyref" where
  "getattr_model_class cls inst d =
     (case inst of Some v \<Rightarrow> v | None \<Rightarrow> (case class_model_class cls of Some v \<Rightarrow> v | None \<Rightarrow> d))"

definition hasattr_model_class :: "'m ModelTable_class \<Rightarrow> 'm pyref option \<Rightarrow> bool" where
  "hasattr_model_class cls inst \<longleftrightarrow> inst \<noteq> None \<or> class_model_class cls \<noteq> None"

text \<open>
  The property \<^verbatim>\<open>_model_class\<close> (lines 172--185).  \<^verbatim>\<open>_meta\<close> is a \<^verbatim>\<open>ModelTableOptions\<close>,
  whose constructor always sets \<^verbatim>\<open>model_class\<close>, so the outer \<^verbatim>\<open>getattr\<close> never falls back
  to its default.  The result comes with the instance attribute as the property leaves it.
\<close>

definition model_class_property ::
  "('m, 'f, 'r) framework \<Rightarrow> 'm ModelTable_class \<Rightarrow> 'm pyref option
     \<Rightarrow> (error + 'm pyref) \<times> 'm pyref option" where
  "model_class_property fw cls inst =
     (let mcs = model_class (meta cls) in
      case (case mcs of
              PyStr s \<Rightarrow> (case get_class fw s of Inl e \<Rightarrow> Inl e | Inr c \<Rightarrow> Inr (Some c))
            | _ \<Rightarrow> Inr inst) of
        Inl e \<Rightarrow> (Inl e, inst)
      | Inr inst' \<Rightarrow>
          let mcls = getattr_model_class cls inst' mcs in
          if \<not> truthy mcls then (Inl (Exception missing_model_class), inst')
          else (Inr mcls, inst'))"

text \<open>
  Lines 136--149: one column per field, stored under the field's name in the plain
  dictionary \<^verbatim>\<open>columns\<close>.
\<close>

definition field_column :: "('m, 'f, 'r) framework \<Rightarrow> nat \<Rightarrow> string list \<Rightarrow> string \<Rightarrow> 'f \<Rightarrow> 'f Column" where
  "field_column fw counter many field_name field =
     Column_init counter field_name
       (case field_label fw field of Some l \<Rightarrow> l | None \<Rightarrow> Some field_name)
       (Some field)
       (if field_name \<in> set many then [filter_m2m] else [])
       None"

fun make_columns ::
  "('m, 'f, 'r) framework \<Rightarrow> nat \<Rightarrow> string list \<Rightarrow> (string \<times> 'f) list
     \<Rightarrow> (string \<times> 'f Column) list \<Rightarrow> (string \<times> 'f Column) list" where
  "make_columns fw counter many [] cols = cols"
| "make_columns fw counter many (kv # flds) cols =
     make_columns fw (Suc counter) many flds
       (SortedDict_setitem (fst kv) (field_column fw counter many (fst kv) (snd kv)) cols)"

text \<open>
  \<^verbatim>\<open>ModelTable.__init__\<close>.  \<open>cols0\<close> is \<^verbatim>\<open>_columns\<close> of the class at the call and
  \<open>counter\<close> the framework's creation counter.  The framework's own \<^verbatim>\<open>__init__\<close> (lines
  126 and 157) rebuilds \<^verbatim>\<open>self.columns\<close> from \<^verbatim>\<open>_columns\<close>, key by key, so after line 157
  the two hold the same keys in the same order, whatever line 154 did in between.
  Both reads of \<^verbatim>\<open>_model_class\<close> (lines 134 and 138) give the same model.
\<close>

definition ModelTable_init ::
  "('m, 'f, 'r) framework \<Rightarrow> nat \<Rightarrow> 'm ModelTable_class \<Rightarrow> (string \<times> 'f Column) list
     \<Rightarrow> error + ('m, 'f) ModelTable" where
  "ModelTable_init fw counter cls cols0 =
     (case model_class_property fw cls None of
        (Inl e, inst) \<Rightarrow> Inl e
      | (Inr mcls, inst) \<Rightarrow>
          (case mcls of
             PyModel m \<Rightarrow>
               (let flds = fields_for_model fw m (columns (meta cls));
                    many = many_to_many fw m;
                    synthesized = make_columns fw counter many flds []
                in case SortedDict_pop ''actions'' cols0 of
                     Inl e \<Rightarrow> Inl e
                   | Inr (actions, cols1) \<Rightarrow>
                       let merged = SortedDict_setitem ''actions'' actions synthesized;
                           cols2 = SortedDict_update (dict_items (dict_order fw) merged) cols1
                       in if \<not> callable (get_table_data_attr cls) \<and> \<not> hasattr_model_class cls inst
                          then Inl (NotImplementedError (must_define_get_table_data (class_name cls)))
                          else Inr \<lparr>self_model_class = inst, self_columns = cols2,
                                    class_columns = cols2\<rparr>)
           | _ \<Rightarrow> Inl (AttributeError ''_meta'')))"

text \<open>
  \<^verbatim>\<open>PaginatedTable.__init__\<close> and \<^verbatim>\<open>PaginatedModelTable.__init__\<close> have the same body; the
  result is the instance with its \<^verbatim>\<open>PAGINATION_COUNT\<close>.
\<close>

definition PaginatedTable_init ::
  "('m, 'f, 'r) framework \<Rightarrow> nat \<Rightarrow> 'm ModelTable_class \<Rightarrow> (string \<times> 'f Column) list
     \<Rightarrow> error + ('m, 'f) ModelTable \<times> string" where
  "PaginatedTable_init fw counter cls cols0 =
     (case ModelTable_init fw counter cls cols0 of
        Inl e \<Rightarrow> Inl e
      | Inr t \<Rightarrow>
          if \<not> callable (get_paginator_data_attr cls)
               \<and> \<not> hasattr_model_class cls (self_model_class t)
          then Inl (NotImplementedError (must_define_get_paginator_data (class_name cls)))
          else Inr (t, case settings_PAGINATION_COUNT fw of Some c \<Rightarrow> c | None \<Rightarrow> ''25''))"

definition PaginatedModelTable_init ::
  "('m, 'f, 'r) framework \<Rightarrow> nat \<Rightarrow> 'm ModelTable_class \<Rightarrow> (string \<times> 'f Column) list
     \<Rightarrow> error + ('m, 'f) ModelTable \<times> string" where
  "PaginatedModelTable_init = PaginatedTable_init"

text \<open>The generic \<^verbatim>\<open>get_table_data\<close> (lines 187--197).\<close>

definition get_table_data ::
  "('m, 'f, 'r) framework \<Rightarrow> 'm ModelTable_class \<Rightarrow> 'm pyref option \<Rightarrow> error + 'r list" where
  "get_table_data fw cls inst =
     (case model_class_property fw cls inst of
        (Inl e, inst') \<Rightarrow> Inl e
      | (Inr mcls, inst') \<Rightarrow>
          if mcls = PyNone \<and> \<not> callable (get_table_data_attr cls)
          then Inl (Exception ''you must specify ``model_class`` or override get_table_data'')
          else (case mcls of
                  PyModel m \<Rightarrow> all_objects_ordered fw m (order_by (meta cls))
                | _ \<Rightarrow> Inl (AttributeError ''objects'')))"

section \<open>Notions the statements use, and a concrete table\<close>

text \<open>The columns a class inherits: the \<^verbatim>\<open>base_columns\<close> items of its bases, in order.\<close>

definition inherited_columns :: "(string \<times> 'f Column) list option list \<Rightarrow> (string \<times> 'f Column) list" where
  "inherited_columns bases =
     concat (map (\<lambda>b. case b of Some items \<Rightarrow> items | None \<Rightarrow> []) bases)"

text \<open>
  The framework takes \<^verbatim>\<open>_filter_action\<close> from the declared table actions; here: it is one of
  the declared actions, if there is one.
\<close>

definition filter_action_declared :: "'m ModelTableOptions \<Rightarrow> bool" where
  "filter_action_declared opts =
     (case filter_action opts of
        None \<Rightarrow> True
      | Some fa \<Rightarrow> fa \<in> set (row_actions opts) \<union> set (table_actions opts))"

text \<open>
  The options of a class without \<^verbatim>\<open>Meta\<close>: \<^verbatim>\<open>model_class\<close> is \<^verbatim>\<open>None\<close>, \<^verbatim>\<open>order_by\<close> is
  \<^verbatim>\<open>("-id")\<close>, and the framework's defaults follow from the empty action lists.
\<close>

definition ModelTableOptions_default :: "'m ModelTableOptions" where
  "ModelTableOptions_default =
     \<lparr>model_class = PyNone, order_by = ''-id'', columns = None, multi_select = False,
      actions_column = False, browser_table = None, row_actions = [], table_actions = [],
      filter_action = None\<rparr>"

text \<open>A declared column \<^verbatim>\<open>Column("x")\<close>, the \<open>k\<close>-th column created.\<close>

definition declared :: "nat \<Rightarrow> string \<Rightarrow> string \<times> string attr" where
  "declared k attr_name = (attr_name, ColumnAttr (Column_init k attr_name None None [] None))"

text \<open>
  A concrete model, \<open>''Post''\<close>, registered as \<^verbatim>\<open>blog.post\<close>, with the single form field
  \<^verbatim>\<open>tags\<close>, a many-to-many field labelled ``Tags''.  Form fields are their labels.
  Dictionaries iterate as in CPython 2.7.
\<close>

definition post_framework :: "(string, string, nat) framework" where
  "post_framework =
     \<lparr>get_class = (\<lambda>s. if s = ''blog.post'' then Inr (PyModel ''Post'')
                        else Inl (Exception ''ContentType matching query does not exist.'')),
      fields_for_model = (\<lambda>m allow. [(''tags'', ''Tags'')]),
      many_to_many = (\<lambda>m. [''tags'']),
      field_label = (\<lambda>f. Some (Some f)),
      all_objects_ordered = (\<lambda>m key. Inr []),
      dict_order = small_dict_order,
      settings_PAGINATION_COUNT = None\<rparr>"

text \<open>A table class bound to nothing, and one bound to the model by \<^verbatim>\<open>Meta.model_class\<close>.\<close>

definition unbound_table :: "string ModelTable_class" where
  "unbound_table =
     \<lparr>class_name = ''UnboundTable'', meta = ModelTableOptions_default,
      class_model_class = None, get_table_data_attr = Generic,
      get_paginator_data_attr = Generic\<rparr>"

definition post_table :: "string ModelTable_class" where
  "post_table =
     \<lparr>class_name = ''PostTable'',
      meta = ModelTableOptions_default\<lparr>model_class := PyModel ''Post'', actions_column := True\<rparr>,
      class_model_class = None, get_table_data_attr = Generic,
      get_paginator_data_attr = Generic\<rparr>"

text \<open>\<^verbatim>\<open>_columns\<close> of a class that declares no column and has the actions column.\<close>

definition actions_only :: "(string \<times> string Column) list" where
  "actions_only =
     [(''actions'',
       (Column_init 0 ''actions'' (Some ''Actions'') None [] (Some ''actions''))
         \<lparr>classes := [''actions_column'']\<rparr>)]"


text \<open>The names of the generated columns, before and after the declared ones.\<close>

definition auto_before :: "'m ModelTableOptions \<Rightarrow> string list" where
  "auto_before opts =
     (if multi_select opts \<and> browser_table opts \<noteq> Some ''navigation'' then [''multi_select''] else [])"

definition auto_after :: "'m ModelTableOptions \<Rightarrow> string list" where
  "auto_after opts = (if actions_column opts then [''actions''] else [])"




text \<open>Options of a table without columns, and the class the metaclass makes of them.\<close>

definition two_deletes :: "unit ModelTableOptions" where
  "two_deletes =
     ModelTableOptions_default
       \<lparr>row_actions := [ActionClass 1 ''update'', ActionClass 2 ''delete''],
        table_actions := [ActionClass 3 ''delete'', ActionClass 2 ''delete'']\<rparr>"

definition two_deletes_class :: "unit table_class" where
  "two_deletes_class =
     \<lparr>base_columns = [], cls_columns = [],
      base_actions = [(''delete'', Instance (ActionClass 3 ''delete'')),
                      (''update'', Instance (ActionClass 1 ''update''))],
      meta_filter_action = None, attrs_left = [],
      instantiated = [ActionClass 2 ''delete'', ActionClass 3 ''delete'', ActionClass 1 ''update'']\<rparr>"

text \<open>The elements of a list, each at its first occurrence.\<close>

definition first_occurrences :: "'a list \<Rightarrow> 'a list" where
  "first_occurrences xs = rev (remdups (rev xs))"


section \<open>Pagination: pages, clamping and the token "all"\<close>

lemma py_int_25: "py_int ''25'' = Some 25"
  by code_simp

lemma py_int_1: "py_int ''1'' = Some 1"
  by code_simp

lemma py_int_2: "py_int ''2'' = Some 2"
  by code_simp

lemma py_int_99: "py_int ''99'' = Some 99"
  by code_simp

lemma paginator_fresh:
  assumes "paginator_cache t = None" and "table_data t = Inr xs"
    and "py_int (PAGINATION_COUNT t) = Some n"
  shows "paginator t =
           (Inr \<lparr>object_list = xs, per_page = n\<rparr>,
            t\<lparr>paginator_cache := Some \<lparr>object_list = xs, per_page = n\<rparr>\<rparr>)"
  using assms by (simp add: paginator_def get_paginator_data_def Paginator_init_def)

lemma paginator_cached:
  assumes "paginator_cache t = Some p"
  shows "paginator t = (Inr p, t)"
  using assms by (simp add: paginator_def)

lemma num_pages_30_25:
  assumes "length xs = 30"
  shows "num_pages \<lparr>object_list = xs, per_page = 25\<rparr> = Inr 2"
  using assms by (simp add: num_pages_def count_def)

lemma page_at_1:
  assumes "length xs = 30"
  shows "page_at \<lparr>object_list = xs, per_page = 25\<rparr> 1 = Inr (Page (take 25 xs) 1)"
  using assms
  by (simp add: page_at_def validate_number_def num_pages_30_25 count_def py_slice_def
      slice_bound_def)

lemma page_at_2:
  assumes "length xs = 30"
  shows "page_at \<lparr>object_list = xs, per_page = 25\<rparr> 2 = Inr (Page (drop 25 xs) 2)"
  using assms
  by (simp add: page_at_def validate_number_def num_pages_30_25 count_def py_slice_def
      slice_bound_def)

lemma page_at_99:
  assumes "length xs = 30"
  shows "page_at \<lparr>object_list = xs, per_page = 25\<rparr> 99 = Inl EmptyPage"
  using assms by (simp add: page_at_def validate_number_def num_pages_30_25)

text \<open>
  Claim C2.  A paginated table over 30 records with page size 25, its paginator not yet
  built: \<^verbatim>\<open>get_page_data("1")\<close> returns the first 25 records, and then \<^verbatim>\<open>has_next()\<close> is
  true and \<^verbatim>\<open>has_previous()\<close> false; \<^verbatim>\<open>get_page_data("2")\<close> returns the remaining 5
  records, and then \<^verbatim>\<open>has_next()\<close> is false and \<^verbatim>\<open>has_previous()\<close> true;
  \<^verbatim>\<open>get_page_data("99")\<close> does not raise and returns what page 2 returns.
\<close>

theorem thirty_records_page_size_25:
  assumes "PAGINATION_COUNT t = ''25''" and "paginator_cache t = None"
    and "table_data t = Inr xs" and "length xs = 30"
  shows "fst (get_page_data ''1'' t) = Inr (PageObjects (Page (take 25 xs) 1))
       \<and> fst (has_next (snd (get_page_data ''1'' t))) = Inr True
       \<and> has_previous (snd (get_page_data ''1'' t)) = False
       \<and> fst (get_page_data ''2'' t) = Inr (PageObjects (Page (drop 25 xs) 2))
       \<and> length (drop 25 xs) = 5
       \<and> fst (has_next (snd (get_page_data ''2'' t))) = Inr False
       \<and> has_previous (snd (get_page_data ''2'' t)) = True
       \<and> fst (get_page_data ''99'' t) = fst (get_page_data ''2'' t)"
proof -
  let ?p = "\<lparr>object_list = xs, per_page = 25\<rparr>"
  let ?t1 = "t\<lparr>paginator_cache := Some ?p\<rparr>"
  have pg: "paginator t = (Inr ?p, ?t1)"
    using assms by (simp add: paginator_fresh py_int_25)
  have g1: "get_page_data ''1'' t
              = (Inr (PageObjects (Page (take 25 xs) 1)), ?t1\<lparr>page := ''1''\<rparr>)"
    using assms(4)
    by (simp add: get_page_data_def pg page_data_try_def page_of_token_def py_int_1 page_at_1)
  have g2: "get_page_data ''2'' t
              = (Inr (PageObjects (Page (drop 25 xs) 2)), ?t1\<lparr>page := ''2''\<rparr>)"
    using assms(4)
    by (simp add: get_page_data_def pg page_data_try_def page_of_token_def py_int_2 page_at_2)
  have g99: "get_page_data ''99'' t
              = (Inr (PageObjects (Page (drop 25 xs) 2)), ?t1\<lparr>page := ''99''\<rparr>)"
    using assms(4)
    by (simp add: get_page_data_def pg page_data_try_def page_of_token_def py_int_99
        page_at_99 page_at_2 num_pages_30_25)
  have n1: "fst (has_next (?t1\<lparr>page := ''1''\<rparr>)) = Inr True"
    using assms(4)
    by (simp add: has_next_def get_page_def py_int_1 paginator_cached num_pages_30_25)
  have n2: "fst (has_next (?t1\<lparr>page := ''2''\<rparr>)) = Inr False"
    using assms(4)
    by (simp add: has_next_def get_page_def py_int_2 paginator_cached num_pages_30_25)
  have p1: "has_previous (?t1\<lparr>page := ''1''\<rparr>) = False"
    by (simp add: has_previous_def get_page_def py_int_1)
  have p2: "has_previous (?t1\<lparr>page := ''2''\<rparr>) = True"
    by (simp add: has_previous_def get_page_def py_int_2)
  show ?thesis using assms(4) by (simp add: g1 g2 g99 n1 n2 p1 p2)
qed

theorem thirty_records_page_size_25_witness:
  "length [1..<31] = 30
   \<and> fst (get_page_data ''1'' (PaginationMixin_new (Inr [1..<31])))
       = Inr (PageObjects (Page (take 25 [1..<31]) 1))
   \<and> fst (has_next (snd (get_page_data ''1'' (PaginationMixin_new (Inr [1..<31]))))) = Inr True
   \<and> has_previous (snd (get_page_data ''1'' (PaginationMixin_new (Inr [1..<31])))) = False
   \<and> fst (get_page_data ''2'' (PaginationMixin_new (Inr [1..<31])))
       = Inr (PageObjects (Page (drop 25 [1..<31]) 2))
   \<and> fst (get_page_data ''99'' (PaginationMixin_new (Inr [1..<31])))
       = fst (get_page_data ''2'' (PaginationMixin_new (Inr [1..<31])))"
  using thirty_records_page_size_25 [of "PaginationMixin_new (Inr [1..<31])" "[1..<31]"]
  by (simp add: PaginationMixin_new_def)

text \<open>
  Claim C3, as stated: for every page token that is not \<^verbatim>\<open>"all"\<close> and does not parse as an
  integer, \<^verbatim>\<open>get_page\<close> returns \<^verbatim>\<open>None\<close> and no page access, \<^verbatim>\<open>get_page_data\<close> with that
  token included, raises.  It fails for \<^verbatim>\<open>get_page_data\<close>: the token \<^verbatim>\<open>"abc"\<close> reaches the
  paginator, whose \<^verbatim>\<open>PageNotAnInteger\<close> is not an \<^verbatim>\<open>EmptyPage\<close> and is not caught.
\<close>

theorem unparsable_token_get_page_data_raises:
  "''abc'' \<noteq> ''all'' \<and> py_int ''abc'' = None
   \<and> fst (get_page_data ''abc'' (PaginationMixin_new (Inr [1, 2, 3 :: nat])))
       = Inl PageNotAnInteger"
  by code_simp

text \<open>
  Claim C3, amended.  For every page token that is not \<^verbatim>\<open>"all"\<close> and does not parse as an
  integer: with that token as the current page, \<^verbatim>\<open>get_page\<close>, \<^verbatim>\<open>previous_page_number\<close> and
  \<^verbatim>\<open>next_page_number\<close> return \<^verbatim>\<open>None\<close>, and \<^verbatim>\<open>has_previous\<close> and \<^verbatim>\<open>has_next\<close> return false
  without raising and without touching the paginator.  \<^verbatim>\<open>get_page_data\<close> called with such a
  token, unless it is the empty string, raises.  When the paginator cannot be built it
  raises the error of building it and leaves the table as it was, the current page
  included.  Otherwise it stores the token as the current page, keeps the paginator it
  built, and raises \<^verbatim>\<open>PageNotAnInteger\<close>.
\<close>

theorem unparsable_token_is_no_page:
  assumes "tok \<noteq> ''all''" and "py_int tok = None"
  shows "get_page (t\<lparr>page := tok\<rparr>) = None
       \<and> previous_page_number (t\<lparr>page := tok\<rparr>) = None
       \<and> next_page_number (t\<lparr>page := tok\<rparr>) = None
       \<and> has_previous (t\<lparr>page := tok\<rparr>) = False
       \<and> has_next (t\<lparr>page := tok\<rparr>) = (Inr False, t\<lparr>page := tok\<rparr>)
       \<and> (tok = [] \<or> get_page_data tok t =
            (case paginator t of
               (Inl e, t1) \<Rightarrow> (Inl e, t1)
             | (Inr p, t1) \<Rightarrow> (Inl PageNotAnInteger, t1\<lparr>page := tok\<rparr>)))
       \<and> (tok = [] \<or> (case fst (paginator t) of
               Inl e \<Rightarrow> get_page_data tok t = (Inl e, t)
             | Inr p \<Rightarrow> fst (get_page_data tok t) = Inl PageNotAnInteger
                        \<and> page (snd (get_page_data tok t)) = tok
                        \<and> paginator_cache (snd (get_page_data tok t)) = Some p))"
proof -
  have a: "get_page (t\<lparr>page := tok\<rparr>) = None"
    using assms(2) by (simp add: get_page_def)
  have b: "get_page_data tok t =
            (case paginator t of
               (Inl e, t1) \<Rightarrow> (Inl e, t1)
             | (Inr p, t1) \<Rightarrow> (Inl PageNotAnInteger, t1\<lparr>page := tok\<rparr>))" if "tok \<noteq> []"
  proof (cases "paginator t")
    case (Pair r t1)
    then show ?thesis using assms that
      by (cases r) (simp_all add: get_page_data_def page_data_try_def page_of_token_def)
  qed
  have c: "(case fst (paginator t) of
               Inl e \<Rightarrow> get_page_data tok t = (Inl e, t)
             | Inr p \<Rightarrow> fst (get_page_data tok t) = Inl PageNotAnInteger
                        \<and> page (snd (get_page_data tok t)) = tok
                        \<and> paginator_cache (snd (get_page_data tok t)) = Some p)" if "tok \<noteq> []"
    unfolding b [OF that]
    by (auto simp: paginator_def split: option.splits sum.splits)
  show ?thesis using a b c
    by (auto simp: previous_page_number_def next_page_number_def has_previous_def has_next_def)
qed

theorem unparsable_token_is_no_page_witness:
  "''abc'' \<noteq> ''all'' \<and> py_int ''abc'' = None
   \<and> get_page ((PaginationMixin_new (Inr [4, 5, 6 :: nat]))\<lparr>page := ''abc''\<rparr>) = None
   \<and> has_next ((PaginationMixin_new (Inr [4, 5, 6 :: nat]))\<lparr>page := ''abc''\<rparr>)
       = (Inr False, (PaginationMixin_new (Inr [4, 5, 6 :: nat]))\<lparr>page := ''abc''\<rparr>)
   \<and> get_page_data ''abc'' (PaginationMixin_new (Inr [4, 5, 6 :: nat]))
       = (Inl PageNotAnInteger,
          (PaginationMixin_new (Inr [4, 5, 6 :: nat]))
            \<lparr>paginator_cache := Some \<lparr>object_list = [4, 5, 6], per_page = 25\<rparr>, page := ''abc''\<rparr>)
   \<and> get_page_data ''abc'' (PaginationMixin_new (Inl (Exception ''no data'') :: error + nat list))
       = (Inl (Exception ''no data''), PaginationMixin_new (Inl (Exception ''no data'')))"
proof -
  have a: "''abc'' \<noteq> ''all''" by simp
  have b: "py_int ''abc'' = None" by code_simp
  have p: "paginator (PaginationMixin_new (Inr [4, 5, 6 :: nat]))
             = (Inr \<lparr>object_list = [4, 5, 6], per_page = 25\<rparr>,
                (PaginationMixin_new (Inr [4, 5, 6 :: nat]))
                  \<lparr>paginator_cache := Some \<lparr>object_list = [4, 5, 6], per_page = 25\<rparr>\<rparr>)"
    by (simp add: paginator_fresh [where n = 25] PaginationMixin_new_def py_int_25)
  have q: "paginator (PaginationMixin_new (Inl (Exception ''no data'') :: error + nat list))
             = (Inl (Exception ''no data''), PaginationMixin_new (Inl (Exception ''no data'')))"
    by (simp add: paginator_def PaginationMixin_new_def get_paginator_data_def)
  show ?thesis
    using unparsable_token_is_no_page [OF a b, of "PaginationMixin_new (Inr [4, 5, 6 :: nat])"]
          unparsable_token_is_no_page [OF a b, of "PaginationMixin_new (Inl (Exception ''no data'') :: error + nat list)"]
          a b
    by (simp add: p q)
qed

text \<open>
  Claim C8.  For every paginated table with show-all enabled whose data fetch returns and
  whose page size is an integer, whatever integer, \<^verbatim>\<open>get_page_data("all")\<close> returns the
  complete dataset of the data fetch, unpaged.
\<close>

theorem show_all_returns_whole_dataset:
  assumes "show_all_url t" and "table_data t = Inr xs"
    and "py_int (PAGINATION_COUNT t) = Some n"
  shows "fst (get_page_data ''all'' t) = Inr (AllObjects xs)"
proof (cases "paginator_cache t")
  case None
  then show ?thesis using assms
    by (simp add: get_page_data_def paginator_fresh page_data_try_def get_paginator_data_def)
next
  case (Some p)
  then show ?thesis using assms
    by (simp add: get_page_data_def paginator_cached page_data_try_def get_paginator_data_def)
qed

theorem show_all_returns_whole_dataset_witness:
  "show_all_url (PaginationMixin_new (Inr [1, 2, 3 :: nat]))
   \<and> fst (get_page_data ''all'' (PaginationMixin_new (Inr [1, 2, 3 :: nat])))
       = Inr (AllObjects [1, 2, 3])"
  using show_all_returns_whole_dataset [of "PaginationMixin_new (Inr [1, 2, 3 :: nat])" "[1, 2, 3]" 25]
  by (simp add: PaginationMixin_new_def py_int_25)

text \<open>
  Claim C10.  When the page token is \<^verbatim>\<open>"all"\<close> (passed, or already current and no token
  passed) and show-all is disabled, \<^verbatim>\<open>get_page_data\<close>, once it has its paginator, assigns
  \<^verbatim>\<open>objects\<close> in no branch and raises the unbound-local error at \<^verbatim>\<open>return objects\<close>.
\<close>

theorem all_without_show_all_is_unbound:
  assumes "\<not> show_all_url t" and "fst (paginator t) = Inr p"
    and "(if page_arg = [] then page t else page_arg) = ''all''"
  shows "fst (get_page_data page_arg t) = Inl (UnboundLocalError ''objects'')"
proof -
  obtain t1 where pg: "paginator t = (Inr p, t1)"
    using assms(2) by (cases "paginator t") auto
  have t1: "page t1 = page t" "show_all_url t1 = show_all_url t"
    using pg by (auto simp: paginator_def split: option.splits sum.splits)
  show ?thesis using assms t1
    by (auto simp: get_page_data_def pg page_data_try_def Let_def split: if_splits)
qed

theorem all_without_show_all_is_unbound_witness:
  "fst (paginator ((PaginationMixin_new (Inr [1, 2, 3 :: nat]))\<lparr>show_all_url := False\<rparr>))
     = Inr \<lparr>object_list = [1, 2, 3], per_page = 25\<rparr>
   \<and> fst (get_page_data ''all'' ((PaginationMixin_new (Inr [1, 2, 3 :: nat]))\<lparr>show_all_url := False\<rparr>))
     = Inl (UnboundLocalError ''objects'')"
proof -
  let ?t = "(PaginationMixin_new (Inr [1, 2, 3 :: nat]))\<lparr>show_all_url := False\<rparr>"
  have a: "\<not> show_all_url ?t" by (simp add: PaginationMixin_new_def)
  have b: "fst (paginator ?t) = Inr \<lparr>object_list = [1, 2, 3], per_page = 25\<rparr>"
    by (simp add: paginator_fresh [where n = 25] PaginationMixin_new_def py_int_25)
  have c: "(if ''all'' = [] then page ?t else ''all'') = ''all''" by simp
  show ?thesis using all_without_show_all_is_unbound [OF a b c] b by simp
qed

section \<open>Facts about ordered dictionaries\<close>

lemma map_of_setitem: "map_of (SortedDict_setitem k v d) = (map_of d)(k \<mapsto> v)"
  by (induction d) (auto simp: fun_eq_iff)

lemma keys_setitem:
  "map fst (SortedDict_setitem k v d) = (if k \<in> fst ` set d then map fst d else map fst d @ [k])"
  by (induction d) (auto simp: image_iff)

lemma set_setitem_subset: "set (SortedDict_setitem k v d) \<subseteq> insert (k, v) (set d)"
  by (induction d) auto

lemma setitem_in: "(k, v) \<in> set (SortedDict_setitem k v d)"
  by (induction d) auto

lemma distinct_keys_setitem: "distinct (map fst d) \<Longrightarrow> distinct (map fst (SortedDict_setitem k v d))"
  by (simp add: keys_setitem)

lemma setitem_new: "k \<notin> fst ` set d \<Longrightarrow> SortedDict_setitem k v d = d @ [(k, v)]"
  by (induction d) auto

lemma keys_update_set:
  "fst ` set (SortedDict_update items d) = fst ` set d \<union> fst ` set items"
proof (induction items arbitrary: d)
  case Nil
  then show ?case by (simp add: SortedDict_update_def)
next
  case (Cons kv items)
  have "fst ` set (SortedDict_setitem (fst kv) (snd kv) d) = insert (fst kv) (fst ` set d)"
    using keys_setitem [of "fst kv" "snd kv" d]
    by (metis (no_types, lifting) insert_absorb list.set_map set_append list.simps(15) Un_insert_right sup_bot.right_neutral empty_set)
  then show ?case using Cons.IH [of "SortedDict_setitem (fst kv) (snd kv) d"]
    by (auto simp: SortedDict_update_def)
qed

lemma distinct_keys_update:
  "distinct (map fst d) \<Longrightarrow> distinct (map fst (SortedDict_update items d))"
  by (induction items arbitrary: d) (simp_all add: SortedDict_update_def distinct_keys_setitem)

lemma update_fresh:
  "distinct (map fst items) \<Longrightarrow> fst ` set items \<inter> fst ` set d = {} \<Longrightarrow> SortedDict_update items d = d @ items"
proof (induction items arbitrary: d)
  case Nil
  then show ?case by (simp add: SortedDict_update_def)
next
  case (Cons kv items)
  have new: "fst kv \<notin> fst ` set d" using Cons.prems(2) by auto
  have "SortedDict_update items (d @ [kv]) = (d @ [kv]) @ items"
    using Cons.prems by (intro Cons.IH) auto
  then show ?case using new by (simp add: SortedDict_update_def setitem_new)
qed

lemma SortedDict_distinct: "distinct (map fst xs) \<Longrightarrow> SortedDict xs = xs"
  by (simp add: SortedDict_def update_fresh)

lemma map_of_update:
  "map_of (SortedDict_update items d) = map_of d ++ map_of (rev items)"
proof (induction items arbitrary: d)
  case Nil
  then show ?case by (simp add: SortedDict_update_def)
next
  case (Cons kv items)
  have "map_of (SortedDict_update items (SortedDict_setitem (fst kv) (snd kv) d))
          = map_of (SortedDict_setitem (fst kv) (snd kv) d) ++ map_of (rev items)"
    by (rule Cons.IH)
  then show ?case
    by (cases kv) (simp add: SortedDict_update_def map_of_setitem map_add_def fun_eq_iff split: option.splits)
qed

lemma set_update_subset: "set (SortedDict_update items d) \<subseteq> set d \<union> set items"
proof (induction items arbitrary: d)
  case Nil
  then show ?case by (simp add: SortedDict_update_def)
next
  case (Cons kv items)
  show ?case using Cons.IH [of "SortedDict_setitem (fst kv) (snd kv) d"] set_setitem_subset [of "fst kv" "snd kv" d]
    by (auto simp: SortedDict_update_def)
qed

lemma sorted_keys_update:
  "sorted (map fst d @ map fst items) \<Longrightarrow> sorted (map fst (SortedDict_update items d))"
proof (induction items arbitrary: d)
  case Nil
  then show ?case by (simp add: SortedDict_update_def)
next
  case (Cons kv items)
  have "sorted (map fst (SortedDict_setitem (fst kv) (snd kv) d) @ map fst items)"
    using Cons.prems by (auto simp: keys_setitem sorted_append)
  then show ?case using Cons.IH by (simp add: SortedDict_update_def)
qed

section \<open>The metaclass: column limits\<close>

lemma length_gather_columns:
  "length (gather_columns attrs) = length (filter (\<lambda>kv. is_column (snd kv)) attrs)"
  by (induction attrs rule: gather_columns.induct) simp_all

lemma inherit_columns_concat:
  "inherit_columns bases cols = concat (map (\<lambda>b. case b of Some items \<Rightarrow> items | None \<Rightarrow> []) bases) @ cols"
proof -
  have "fold (\<lambda>base acc. case base of Some items \<Rightarrow> items @ acc | None \<Rightarrow> acc) bs cols
          = concat (map (\<lambda>b. case b of Some items \<Rightarrow> items | None \<Rightarrow> []) (rev bs)) @ cols" for bs
    by (induction bs arbitrary: cols) (auto split: option.splits)
  from this [of "rev bases"] show ?thesis by (simp add: inherit_columns_def)
qed

lemma length_all_columns:
  "length (inherit_columns bases (declared_columns attrs))
     = length (inherited_columns bases) + length (filter (\<lambda>kv. is_column (snd kv)) attrs)"
  by (simp add: inherit_columns_concat declared_columns_def length_gather_columns inherited_columns_def)

lemma filter_remove1_other: "\<not> Q y \<Longrightarrow> filter Q (remove1 y xs) = filter Q xs"
  by (induction xs) auto

lemma mset_filter_remove1:
  "y \<in> set xs \<Longrightarrow> P y \<Longrightarrow> mset (filter P (remove1 y xs)) = mset (filter P xs) - {#y#}"
  by (induction xs) auto

lemma drop_loop_filter:
  "mset (filter (\<lambda>x. fst x \<notin> set allow) ys) = mset (filter (\<lambda>x. fst x \<notin> set allow) acc)
   \<Longrightarrow> fold (\<lambda>cd acc. if fst cd \<notin> set allow then remove1 cd acc else acc) ys acc
        = filter (\<lambda>x. fst x \<in> set allow) acc"
proof (induction ys arbitrary: acc)
  case Nil
  then have "\<forall>x\<in>set acc. fst x \<in> set allow" by (auto simp: filter_empty_conv)
  then show ?case by (simp add: filter_id_conv)
next
  case (Cons y ys)
  show ?case
  proof (cases "fst y \<in> set allow")
    case True
    then show ?thesis using Cons by simp
  next
    case False
    have "y \<in># mset (filter (\<lambda>x. fst x \<notin> set allow) acc)"
      using Cons.prems False by (metis (mono_tags, lifting) filter.simps(2) list.set_intros(1) set_mset_mset)
    then have yin: "y \<in> set acc" by simp
    have "mset (filter (\<lambda>x. fst x \<notin> set allow) (remove1 y acc))
            = mset (filter (\<lambda>x. fst x \<notin> set allow) ys)"
    proof -
      have "mset (filter (\<lambda>x. fst x \<notin> set allow) (remove1 y acc))
              = mset (filter (\<lambda>x. fst x \<notin> set allow) acc) - {#y#}"
        using False yin by (intro mset_filter_remove1) simp_all
      also have "mset (filter (\<lambda>x. fst x \<notin> set allow) acc)
              = add_mset y (mset (filter (\<lambda>x. fst x \<notin> set allow) ys))"
        using Cons.prems False by simp
      finally show ?thesis by simp
    qed
    then have "fold (\<lambda>cd acc. if fst cd \<notin> set allow then remove1 cd acc else acc) ys (remove1 y acc)
                 = filter (\<lambda>x. fst x \<in> set allow) (remove1 y acc)"
      by (intro Cons.IH) simp
    then show ?thesis using False by (simp add: filter_remove1_other)
  qed
qed

lemma drop_undeclared_filter:
  "drop_undeclared allow cols = filter (\<lambda>x. fst x \<in> set allow) cols"
  by (simp add: drop_undeclared_def drop_loop_filter)

lemma explicit_columns_ok: "\<exists>kept. explicit_columns allow_opt cols = Inr kept"
  by (auto simp: explicit_columns_def reorder_declared_def drop_undeclared_filter list_all_iff
      split: option.splits)

lemma actions_dict_lookup:
  assumes "a \<in> set acts"
  shows "\<exists>inst. map_of (SortedDict (map (\<lambda>a. (action_name a, Instance a)) acts)) (action_name a) = Some inst"
proof -
  have "action_name a \<in> fst ` set (SortedDict (map (\<lambda>a. (action_name a, Instance a)) acts))"
    using assms by (force simp: SortedDict_def keys_update_set)
  then show ?thesis by (metis domD dom_map_of_conv_image_fst)
qed

lemma set_gather_actions:
  assumes "mset (set_order (remdups (row_actions opts @ table_actions opts)))
             = mset (remdups (row_actions opts @ table_actions opts))"
  shows "set (gather_actions set_order opts) = set (row_actions opts) \<union> set (table_actions opts)"
proof -
  have "set (set_order (remdups (row_actions opts @ table_actions opts)))
          = set (remdups (row_actions opts @ table_actions opts))"
    using assms by (rule mset_eq_setD)
  then show ?thesis by (simp add: gather_actions_def list_of_set_union_def)
qed

text \<open>
  Claim C4.  At class-definition time the limit is checked over the inherited plus the
  declared columns, \<open>n\<close> of them: with browser context \<^verbatim>\<open>"navigation"\<close> more than three
  fail with the \<^verbatim>\<open>ValueError\<close> that names the class, and three or fewer give a class; with
  \<^verbatim>\<open>"content"\<close> more than two fail and two or fewer give a class.  So four columns fail and
  three succeed in a navigation table, three fail and two succeed in a content table.
\<close>

theorem browser_limits_on_declared_plus_inherited:
  fixes opts :: "'m ModelTableOptions" and attrs :: "(string \<times> 'f attr) list"
  assumes perm: "mset (set_order (remdups (row_actions opts @ table_actions opts)))
             = mset (remdups (row_actions opts @ table_actions opts))"
    and fa: "filter_action_declared opts"
    and n: "n = length (inherited_columns bases) + length (filter (\<lambda>kv. is_column (snd kv)) attrs)"
  shows "(browser_table opts = Some ''navigation'' \<and> n > 3 \<longrightarrow>
            ModelTableMetaclass_new set_order counter cname bases attrs opts
              = Inl (ValueError (''You can only assign three column to '' @ cname @ ''.'')))
       \<and> (browser_table opts = Some ''navigation'' \<and> n \<le> 3 \<longrightarrow>
            (\<exists>cls. ModelTableMetaclass_new set_order counter cname bases attrs opts = Inr cls))
       \<and> (browser_table opts = Some ''content'' \<and> n > 2 \<longrightarrow>
            ModelTableMetaclass_new set_order counter cname bases attrs opts
              = Inl (ValueError (''You can only assign two columns to '' @ cname @ ''.'')))
       \<and> (browser_table opts = Some ''content'' \<and> n \<le> 2 \<longrightarrow>
            (\<exists>cls. ModelTableMetaclass_new set_order counter cname bases attrs opts = Inr cls))"
proof -
  let ?cols = "inherit_columns bases (declared_columns attrs)"
  have len: "length ?cols = n" by (simp add: n length_all_columns)
  obtain kept where kept: "explicit_columns (columns opts) ?cols = Inr kept"
    using explicit_columns_ok by blast
  have ok: "check_browser_limits cname (browser_table opts) n = None
            \<Longrightarrow> \<exists>cls. ModelTableMetaclass_new set_order counter cname bases attrs opts = Inr cls"
  proof (cases "filter_action opts")
    case None
    assume "check_browser_limits cname (browser_table opts) n = None"
    then show ?thesis using None kept len by (simp add: ModelTableMetaclass_new_def Let_def)
  next
    case (Some a)
    assume c: "check_browser_limits cname (browser_table opts) n = None"
    have "a \<in> set (gather_actions set_order opts)"
      using fa Some set_gather_actions [of set_order opts] perm
      by (simp add: filter_action_declared_def)
    from actions_dict_lookup [OF this] obtain inst where
      "map_of (SortedDict (map (\<lambda>a. (action_name a, Instance a)) (gather_actions set_order opts))) (action_name a) = Some inst"
      by blast
    then show ?thesis using Some kept len c by (simp add: ModelTableMetaclass_new_def Let_def)
  qed
  have nav: "browser_table opts = Some ''navigation'' \<Longrightarrow> n > 3 \<Longrightarrow>
            ModelTableMetaclass_new set_order counter cname bases attrs opts
              = Inl (ValueError (''You can only assign three column to '' @ cname @ ''.''))"
    using len by (simp add: ModelTableMetaclass_new_def Let_def check_browser_limits_def)
  have con: "browser_table opts = Some ''content'' \<Longrightarrow> n > 2 \<Longrightarrow>
            ModelTableMetaclass_new set_order counter cname bases attrs opts
              = Inl (ValueError (''You can only assign two columns to '' @ cname @ ''.''))"
    using len by (simp add: ModelTableMetaclass_new_def Let_def check_browser_limits_def)
  have nav_ok: "browser_table opts = Some ''navigation'' \<Longrightarrow> n \<le> 3 \<Longrightarrow>
      (\<exists>cls. ModelTableMetaclass_new set_order counter cname bases attrs opts = Inr cls)"
    by (rule ok) (simp add: check_browser_limits_def)
  have con_ok: "browser_table opts = Some ''content'' \<Longrightarrow> n \<le> 2 \<Longrightarrow>
      (\<exists>cls. ModelTableMetaclass_new set_order counter cname bases attrs opts = Inr cls)"
    by (rule ok) (simp add: check_browser_limits_def)
  show ?thesis using nav con nav_ok con_ok by blast
qed

theorem browser_limits_on_declared_plus_inherited_witness:
  "ModelTableMetaclass_new id 0 ''Nav'' []
     [declared 0 ''a'', declared 1 ''b'', declared 2 ''c'', declared 3 ''d'']
     ((ModelTableOptions_default :: unit ModelTableOptions)\<lparr>browser_table := Some ''navigation''\<rparr>)
     = Inl (ValueError ''You can only assign three column to Nav.'')
   \<and> (\<exists>cls. ModelTableMetaclass_new id 0 ''Nav'' []
     [declared 0 ''a'', declared 1 ''b'', declared 2 ''c'']
     ((ModelTableOptions_default :: unit ModelTableOptions)\<lparr>browser_table := Some ''navigation''\<rparr>)
     = Inr cls)
   \<and> ModelTableMetaclass_new id 0 ''Con'' []
     [declared 0 ''a'', declared 1 ''b'', declared 2 ''c'']
     ((ModelTableOptions_default :: unit ModelTableOptions)\<lparr>browser_table := Some ''content''\<rparr>)
     = Inl (ValueError ''You can only assign two columns to Con.'')
   \<and> (\<exists>cls. ModelTableMetaclass_new id 0 ''Con'' []
     [declared 0 ''a'', declared 1 ''b'']
     ((ModelTableOptions_default :: unit ModelTableOptions)\<lparr>browser_table := Some ''content''\<rparr>)
     = Inr cls)"
  using browser_limits_on_declared_plus_inherited [of id "(ModelTableOptions_default :: unit ModelTableOptions)\<lparr>browser_table := Some ''navigation''\<rparr>"
               4 "[]" "[declared 0 ''a'', declared 1 ''b'', declared 2 ''c'', declared 3 ''d'']" 0 "''Nav''"]
        browser_limits_on_declared_plus_inherited [of id "(ModelTableOptions_default :: unit ModelTableOptions)\<lparr>browser_table := Some ''navigation''\<rparr>"
               3 "[]" "[declared 0 ''a'', declared 1 ''b'', declared 2 ''c'']" 0 "''Nav''"]
        browser_limits_on_declared_plus_inherited [of id "(ModelTableOptions_default :: unit ModelTableOptions)\<lparr>browser_table := Some ''content''\<rparr>"
               3 "[]" "[declared 0 ''a'', declared 1 ''b'', declared 2 ''c'']" 0 "''Con''"]
        browser_limits_on_declared_plus_inherited [of id "(ModelTableOptions_default :: unit ModelTableOptions)\<lparr>browser_table := Some ''content''\<rparr>"
               2 "[]" "[declared 0 ''a'', declared 1 ''b'']" 0 "''Con''"]
  by (simp add: ModelTableOptions_default_def filter_action_declared_def inherited_columns_def declared_def)


section \<open>Construction without a model\<close>

lemma model_class_property_unbound:
  assumes "model_class (meta cls) = PyNone" and "class_model_class cls = None"
  shows "model_class_property fw cls None = (Inl (Exception missing_model_class), None)"
  using assms by (simp add: model_class_property_def getattr_model_class_def)

text \<open>
  Claim C1, amended.  Constructing a \<^verbatim>\<open>ModelTable\<close>, a \<^verbatim>\<open>PaginatedTable\<close> or a
  \<^verbatim>\<open>PaginatedModelTable\<close> whose class has no model reference (none in \<^verbatim>\<open>Meta\<close>, none as
  a class attribute) and no data-fetch override raises at construction: the plain
  \<^verbatim>\<open>Exception\<close> ``Missing model_class ...'' of the property \<^verbatim>\<open>_model_class\<close>, which
  \<^verbatim>\<open>__init__\<close> reads before it reaches its \<^verbatim>\<open>NotImplementedError\<close> check.
\<close>

theorem no_model_reference_fails_construction:
  assumes "model_class (meta cls) = PyNone" and "class_model_class cls = None"
    and "get_table_data_attr cls = Generic" and "get_paginator_data_attr cls = Generic"
  shows "ModelTable_init fw counter cls cols0 = Inl (Exception missing_model_class)
       \<and> PaginatedTable_init fw counter cls cols0 = Inl (Exception missing_model_class)
       \<and> PaginatedModelTable_init fw counter cls cols0 = Inl (Exception missing_model_class)"
  using assms
  by (simp add: ModelTable_init_def PaginatedTable_init_def PaginatedModelTable_init_def
      model_class_property_unbound)

text \<open>
  Claim C1, as stated: such a construction raises \<^verbatim>\<open>NotImplementedError\<close>.  For the class
  \<open>unbound_table\<close> it raises something else.
\<close>

theorem unbound_table_raises_plain_exception:
  "model_class (meta unbound_table) = PyNone
   \<and> class_model_class unbound_table = None
   \<and> get_table_data_attr unbound_table = Generic
   \<and> get_paginator_data_attr unbound_table = Generic
   \<and> ModelTable_init post_framework 0 unbound_table actions_only
       \<noteq> Inl (NotImplementedError (must_define_get_table_data (class_name unbound_table)))
   \<and> PaginatedTable_init post_framework 0 unbound_table actions_only
       \<noteq> Inl (NotImplementedError (must_define_get_paginator_data (class_name unbound_table)))
   \<and> ModelTable_init post_framework 0 unbound_table actions_only
       = Inl (Exception missing_model_class)"
  by (simp add: ModelTable_init_def PaginatedTable_init_def model_class_property_def
      getattr_model_class_def unbound_table_def ModelTableOptions_default_def)

theorem no_model_reference_fails_construction_witness:
  "model_class (meta unbound_table) = PyNone
   \<and> class_model_class unbound_table = None
   \<and> ModelTable_init post_framework 0 unbound_table actions_only = Inl (Exception missing_model_class)
   \<and> PaginatedTable_init post_framework 0 unbound_table actions_only = Inl (Exception missing_model_class)"
  using no_model_reference_fails_construction [of unbound_table post_framework 0 actions_only]
  by (simp add: unbound_table_def ModelTableOptions_default_def)

section \<open>The metaclass: the action registry\<close>

lemma sorted_gather_actions: "sorted (map action_name (gather_actions set_order opts))"
  by (simp add: gather_actions_def)

lemma distinct_gather_actions:
  assumes "mset (set_order (remdups (row_actions opts @ table_actions opts)))
             = mset (remdups (row_actions opts @ table_actions opts))"
  shows "distinct (gather_actions set_order opts)"
proof -
  have "distinct (set_order (remdups (row_actions opts @ table_actions opts)))"
    using assms by (metis distinct_remdups mset_eq_imp_distinct_iff)
  then show ?thesis by (simp add: gather_actions_def list_of_set_union_def)
qed

lemma count_list_distinct: "distinct xs \<Longrightarrow> x \<in> set xs \<Longrightarrow> count_list xs x = 1"
  by (induction xs) (auto simp: count_list_0_iff)

text \<open>
  Claim C6.  For every class the metaclass creates, in whatever order the set of declared
  actions iterates: the action registry is sorted by action name; its names are those of
  the declared actions, each once, also when two declared actions share a name; the
  constructor is called for the declared action classes and no others; and every entry of
  the registry is filed under the name of its class, whose constructor was called exactly
  once.
\<close>

theorem action_registry_sorted_one_entry_per_name:
  fixes opts :: "'m ModelTableOptions" and attrs :: "(string \<times> 'f attr) list"
  assumes perm: "mset (set_order (remdups (row_actions opts @ table_actions opts)))
             = mset (remdups (row_actions opts @ table_actions opts))"
    and new: "ModelTableMetaclass_new set_order counter cname bases attrs opts = Inr cls"
  shows "sorted (map fst (base_actions cls))
       \<and> set (map fst (base_actions cls)) = action_name ` (set (row_actions opts) \<union> set (table_actions opts))
       \<and> list_all (\<lambda>a. count_list (map fst (base_actions cls)) (action_name a) = 1)
            (row_actions opts @ table_actions opts)
       \<and> set (instantiated cls) = set (row_actions opts) \<union> set (table_actions opts)
       \<and> list_all (\<lambda>kv. fst kv = action_name (case snd kv of Instance a \<Rightarrow> a)
                      \<and> count_list (instantiated cls) (case snd kv of Instance a \<Rightarrow> a) = 1)
            (base_actions cls)"
proof -
  let ?acts = "gather_actions set_order opts"
  let ?pairs = "map (\<lambda>a. (action_name a, Instance a)) ?acts"
  have ba: "base_actions cls = SortedDict ?pairs" and inst: "instantiated cls = ?acts"
    using new
    by (auto simp: ModelTableMetaclass_new_def Let_def split: option.splits sum.splits)
  have keys: "map fst ?pairs = map action_name ?acts" by (simp add: comp_def)
  have dist: "distinct (map fst (base_actions cls))"
    by (simp add: ba SortedDict_def distinct_keys_update)
  have sorted: "sorted (map fst (base_actions cls))"
    unfolding ba SortedDict_def
    by (rule sorted_keys_update) (simp add: comp_def sorted_gather_actions)
  have acts: "set ?acts = set (row_actions opts) \<union> set (table_actions opts)"
    using perm by (rule set_gather_actions [of set_order opts])
  have kset: "set (map fst (base_actions cls)) = action_name ` (set (row_actions opts) \<union> set (table_actions opts))"
    using keys_update_set [of ?pairs "[]"] acts by (simp add: ba SortedDict_def image_image)
  have once: "list_all (\<lambda>a. count_list (map fst (base_actions cls)) (action_name a) = 1)
            (row_actions opts @ table_actions opts)"
    unfolding list_all_iff
  proof
    fix a assume "a \<in> set (row_actions opts @ table_actions opts)"
    then have "action_name a \<in> set (map fst (base_actions cls))" using kset by auto
    then show "count_list (map fst (base_actions cls)) (action_name a) = 1"
      using dist by (rule count_list_distinct [rotated])
  qed
  have entries: "list_all (\<lambda>kv. fst kv = action_name (case snd kv of Instance a \<Rightarrow> a)
                      \<and> count_list (instantiated cls) (case snd kv of Instance a \<Rightarrow> a) = 1)
            (base_actions cls)"
    unfolding list_all_iff
  proof
    fix kv assume "kv \<in> set (base_actions cls)"
    then have "kv \<in> set ?pairs"
      using set_update_subset [of ?pairs "[]"] by (auto simp: ba SortedDict_def)
    then obtain a where a: "a \<in> set ?acts" "kv = (action_name a, Instance a)" by auto
    have "count_list ?acts a = 1"
      using distinct_gather_actions [of set_order opts] perm a(1) by (simp add: count_list_distinct)
    then show "fst kv = action_name (case snd kv of Instance a \<Rightarrow> a)
                      \<and> count_list (instantiated cls) (case snd kv of Instance a \<Rightarrow> a) = 1"
      using a by (simp add: inst)
  qed
  show ?thesis using sorted kset once acts inst entries by simp
qed

theorem action_registry_sorted_one_entry_per_name_witness:
  "ModelTableMetaclass_new rev 0 ''T'' [] [] two_deletes = Inr two_deletes_class
   \<and> sorted (map fst (base_actions two_deletes_class))
   \<and> count_list (map fst (base_actions two_deletes_class)) ''delete'' = 1
   \<and> count_list (instantiated two_deletes_class) (ActionClass 3 ''delete'') = 1"
proof -
  have new: "ModelTableMetaclass_new rev 0 ''T'' [] [] two_deletes = Inr two_deletes_class"
    by (simp add: ModelTableMetaclass_new_def ModelTableOptions_default_def Let_def
      inherit_columns_def declared_columns_def check_browser_limits_def explicit_columns_def
      add_auto_columns_def gather_actions_def list_of_set_union_def SortedDict_def
      SortedDict_update_def two_deletes_def two_deletes_class_def)
  have perm: "mset (rev (remdups (row_actions two_deletes @ table_actions two_deletes)))
                = mset (remdups (row_actions two_deletes @ table_actions two_deletes))"
    by simp
  show ?thesis
    using action_registry_sorted_one_entry_per_name [OF perm new] new
    by (simp add: two_deletes_def two_deletes_class_def ModelTableOptions_default_def)
qed

section \<open>The metaclass: column order\<close>










lemma index_of_less: "x \<in> set xs \<Longrightarrow> index_of xs x < length xs"
  by (induction xs) auto

lemma nth_index_of: "x \<in> set xs \<Longrightarrow> xs ! index_of xs x = x"
  by (induction xs) auto

lemma index_of_nth: "distinct xs \<Longrightarrow> i < length xs \<Longrightarrow> index_of xs (xs ! i) = i"
proof (induction xs arbitrary: i)
  case Nil
  then show ?case by simp
next
  case (Cons x xs)
  then show ?case by (cases i) auto
qed

lemma index_of_image: "distinct xs \<Longrightarrow> index_of xs ` set xs = {0..<length xs}"
proof (intro set_eqI iffI)
  fix i assume "i \<in> index_of xs ` set xs"
  then show "i \<in> {0..<length xs}" by (auto simp: index_of_less)
next
  fix i assume d: "distinct xs" and "i \<in> {0..<length xs}"
  then have "i < length xs" by simp
  then have "index_of xs (xs ! i) = i" "xs ! i \<in> set xs" using d by (simp_all add: index_of_nth)
  then show "i \<in> index_of xs ` set xs" by (metis imageI)
qed

lemma sorted_by_index_unique:
  assumes "distinct ys" and "set ys = set allow" and "distinct allow"
    and "sorted (map (index_of allow) ys)"
  shows "ys = allow"
proof -
  let ?I = "map (index_of allow) ys"
  have inj: "inj_on (index_of allow) (set ys)"
    using assms(2) by (intro inj_onI) (metis nth_index_of)
  have "distinct ?I" using assms(1) inj by (simp add: distinct_map)
  moreover have "set ?I = {0..<length allow}"
    using assms(2,3) by (simp add: index_of_image)
  ultimately have I: "?I = [0..<length allow]"
    using assms(4) by (intro sorted_distinct_set_unique) simp_all
  have "map (\<lambda>y. allow ! index_of allow y) ys = ys"
    using assms(2) by (intro map_idI) (auto simp: nth_index_of)
  then have "ys = map ((!) allow) ?I"
    by (simp add: comp_def)
  then show ?thesis using I by (simp add: map_nth)
qed

lemma reorder_names:
  assumes "distinct (map fst cols)" and "distinct allow" and "set allow \<subseteq> fst ` set cols"
  shows "map fst (sort_key (\<lambda>x. index_of allow (fst x)) (filter (\<lambda>x. fst x \<in> set allow) cols)) = allow"
proof (rule sorted_by_index_unique)
  let ?F = "filter (\<lambda>x. fst x \<in> set allow) cols"
  let ?R = "sort_key (\<lambda>x. index_of allow (fst x)) ?F"
  have "distinct (map fst ?F)" using assms(1) by (simp add: distinct_map_filter)
  then show "distinct (map fst ?R)" by (simp add: distinct_map)
  show "set (map fst ?R) = set allow" using assms(3) by auto
  show "distinct allow" by (rule assms(2))
  have "sorted (map (\<lambda>x. index_of allow (fst x)) ?R)" by (rule sorted_sort_key)
  then show "sorted (map (index_of allow) (map fst ?R))" by (simp add: comp_def)
qed

lemma names_add_auto_columns:
  "map fst (add_auto_columns counter opts kept) = auto_before opts @ map fst kept @ auto_after opts"
  by (simp add: add_auto_columns_def auto_before_def auto_after_def Let_def)








lemma first_occurrences_distinct: "distinct xs \<Longrightarrow> first_occurrences xs = xs"
  by (simp add: first_occurrences_def distinct_remdups_id)













section \<open>Construction over a model: the synthesized columns\<close>

lemma make_columns_untouched:
  "nm \<notin> fst ` set flds \<Longrightarrow> map_of (make_columns fw counter many flds cols) nm = map_of cols nm"
  by (induction flds arbitrary: counter cols) (auto simp: map_of_setitem)

lemma make_columns_lookup:
  assumes "distinct (map fst flds)" and "(nm, field) \<in> set flds"
  shows "\<exists>k. map_of (make_columns fw counter many flds cols) nm
               = Some (field_column fw k many nm field)"
  using assms
proof (induction flds arbitrary: counter cols)
  case Nil
  then show ?case by simp
next
  case (Cons kv flds)
  show ?case
  proof (cases "kv = (nm, field)")
    case True
    then have "nm \<notin> fst ` set flds" using Cons.prems(1) by auto
    then show ?thesis using True by (auto simp: make_columns_untouched map_of_setitem)
  next
    case False
    then have "(nm, field) \<in> set flds" using Cons.prems(2) by simp
    moreover have "distinct (map fst flds)" using Cons.prems(1) by simp
    ultimately show ?thesis using Cons.IH by simp
  qed
qed

lemma distinct_keys_make_columns:
  "distinct (map fst cols) \<Longrightarrow> distinct (map fst (make_columns fw counter many flds cols))"
  by (induction flds arbitrary: counter cols) (simp_all add: distinct_keys_setitem)

lemma map_of_rev_distinct: "distinct (map fst xs) \<Longrightarrow> map_of (rev xs) = map_of xs"
proof (induction xs)
  case Nil
  then show ?case by simp
next
  case (Cons x xs)
  have none: "map_of xs (fst x) = None"
    using Cons.prems by (simp add: map_of_eq_None_iff)
  have "map_of (rev xs) = map_of xs" using Cons by simp
  then show ?case using none
    by (cases x) (auto simp: fun_eq_iff map_add_def split: option.splits)
qed

lemma dict_items_lookup:
  assumes "distinct (map fst d)" and "mset (ord (map fst d)) = mset (map fst d)"
  shows "map_of (rev (dict_items ord d)) = map_of d"
proof -
  let ?ks = "ord (map fst d)"
  have dk: "distinct ?ks" using assms by (metis mset_eq_imp_distinct_iff)
  have sk: "set ?ks = fst ` set d" using assms(2) by (metis mset_eq_setD list.set_map)
  have items: "dict_items ord d = map (\<lambda>k. (k, the (map_of d k))) ?ks"
  proof -
    have "concat (map (\<lambda>k. case map_of d k of Some v \<Rightarrow> [(k, v)] | None \<Rightarrow> []) ks)
            = map (\<lambda>k. (k, the (map_of d k))) ks" if "set ks \<subseteq> fst ` set d" for ks
      using that
    proof (induction ks)
      case Nil
      then show ?case by simp
    next
      case (Cons k ks)
      then have "k \<in> dom (map_of d)" by (simp add: dom_map_of_conv_image_fst)
      then show ?case using Cons by auto
    qed
    then show ?thesis using sk by (simp add: dict_items_def)
  qed
  have keys: "map fst (dict_items ord d) = ?ks" by (simp add: items comp_def)
  have "map_of (dict_items ord d) k = map_of d k" for k
  proof (cases "k \<in> set ?ks")
    case True
    then have "k \<in> dom (map_of d)" using sk by (simp add: dom_map_of_conv_image_fst)
    then obtain v where v: "map_of d k = Some v" by auto
    have "(k, v) \<in> set (dict_items ord d)" using True v by (auto simp: items)
    then show ?thesis using dk keys v by (simp add: map_of_eq_Some_iff)
  next
    case False
    then have "map_of (dict_items ord d) k = None"
      using keys by (metis map_of_eq_None_iff list.set_map)
    moreover have "map_of d k = None" using False sk by (simp add: map_of_eq_None_iff)
    ultimately show ?thesis by simp
  qed
  then show ?thesis using dk keys by (simp add: map_of_rev_distinct fun_eq_iff)
qed

lemma ModelTable_init_result:
  assumes "ModelTable_init fw counter cls cols0 = Inr t"
    and "fst (model_class_property fw cls None) = Inr (PyModel m)"
  shows "\<exists>actions cols1.
           SortedDict_pop ''actions'' cols0 = Inr (actions, cols1)
         \<and> self_columns t =
             SortedDict_update
               (dict_items (dict_order fw)
                  (SortedDict_setitem ''actions'' actions
                     (make_columns fw counter (many_to_many fw m)
                        (fields_for_model fw m (columns (meta cls))) [])))
               cols1
         \<and> class_columns t = self_columns t"
proof -
  obtain inst where mp: "model_class_property fw cls None = (Inr (PyModel m), inst)"
    using assms(2) by (cases "model_class_property fw cls None") auto
  show ?thesis
    using assms(1)
    by (auto simp: ModelTable_init_def mp Let_def split: sum.splits if_splits)
qed

lemma field_column_attrs:
  "name (field_column fw k many nm field) = nm"
  "verbose_name (field_column fw k many nm field)
     = (case field_label fw field of Some l \<Rightarrow> l | None \<Rightarrow> Some nm)"
  "form_field (field_column fw k many nm field) = Some field"
  "filters (field_column fw k many nm field) = (if nm \<in> set many then [filter_m2m] else [])"
  by (simp_all add: field_column_def Column_init_def)

text \<open>
  Claim C9.  For every table bound to a model \<open>m\<close> and every field \<open>(nm, field)\<close> that the
  model introspection returns for it (a dictionary: the names are distinct), the loop of
  \<^verbatim>\<open>__init__\<close> stores a column \<open>c\<close> under \<open>nm\<close>; unless the field is called \<^verbatim>\<open>actions\<close>,
  \<open>c\<close> is also the column \<open>nm\<close> of the registry of every instance that \<^verbatim>\<open>__init__\<close>
  returns, however the dictionary iterates.  The column is named \<open>nm\<close> and bound to the
  field object; its filters are the multi-value filter \<^verbatim>\<open>filter_m2m\<close> when \<open>nm\<close> is among the
  many-to-many fields of the model, and none otherwise; its label is the label attribute
  of the field when it has one, and the field name otherwise.
\<close>

theorem synthesized_columns_carry_label_and_filter:
  assumes model: "fst (model_class_property fw cls None) = Inr (PyModel m)"
    and fld: "(nm, field) \<in> set (fields_for_model fw m (columns (meta cls)))"
    and dist: "distinct (map fst (fields_for_model fw m (columns (meta cls))))"
    and ord: "\<And>ks. mset (dict_order fw ks) = mset ks"
  shows "\<exists>c. map_of (make_columns fw counter (many_to_many fw m)
                      (fields_for_model fw m (columns (meta cls))) []) nm = Some c
            \<and> (nm \<noteq> ''actions'' \<and> ModelTable_init fw counter cls cols0 = Inr t
                 \<longrightarrow> map_of (self_columns t) nm = Some c \<and> map_of (class_columns t) nm = Some c)
            \<and> name c = nm
            \<and> verbose_name c = (case field_label fw field of Some l \<Rightarrow> l | None \<Rightarrow> Some nm)
            \<and> form_field c = Some field
            \<and> filters c = (if nm \<in> set (many_to_many fw m) then [filter_m2m] else [])"
proof -
  let ?many = "many_to_many fw m"
  let ?flds = "fields_for_model fw m (columns (meta cls))"
  let ?syn = "make_columns fw counter ?many ?flds []"
  obtain k where syn: "map_of ?syn nm = Some (field_column fw k ?many nm field)"
    using make_columns_lookup [OF dist fld] by blast
  have reg: "map_of (self_columns t) nm = Some (field_column fw k ?many nm field)
           \<and> map_of (class_columns t) nm = Some (field_column fw k ?many nm field)"
    if "nm \<noteq> ''actions''" and init: "ModelTable_init fw counter cls cols0 = Inr t"
  proof -
    obtain actions cols1 where
      cols: "self_columns t =
               SortedDict_update
                 (dict_items (dict_order fw) (SortedDict_setitem ''actions'' actions ?syn)) cols1"
      and same: "class_columns t = self_columns t"
      using ModelTable_init_result [OF init model] by blast
    let ?merged = "SortedDict_setitem ''actions'' actions ?syn"
    have "distinct (map fst ?merged)"
      by (simp add: distinct_keys_setitem distinct_keys_make_columns)
    then have "map_of (rev (dict_items (dict_order fw) ?merged)) = map_of ?merged"
      using ord by (rule dict_items_lookup)
    then have "map_of (self_columns t) nm = map_of ?merged nm"
      using syn that(1) by (simp add: cols map_of_update map_add_def map_of_setitem)
    then show ?thesis using syn that(1) same by (simp add: map_of_setitem)
  qed
  show ?thesis
    using syn reg by (intro exI [of _ "field_column fw k ?many nm field"]) (simp add: field_column_attrs)
qed

lemma dict_slot_actions: "dict_slot ''actions'' = 6"
  by (simp add: string_hash_def dict_slot_def)

lemma dict_slot_tags: "dict_slot ''tags'' = 7"
  by (simp add: string_hash_def dict_slot_def)

lemma small_dict_order_tags_actions:
  "small_dict_order [''tags'', ''actions''] = [''actions'', ''tags'']"
  by (simp add: small_dict_order_def dict_slot_actions dict_slot_tags)

lemma mset_small_dict_order: "mset (small_dict_order ks) = mset ks"
  by (simp add: small_dict_order_def)

lemma post_table_model:
  "model_class_property post_framework post_table None = (Inr (PyModel ''Post''), None)"
  by (simp add: model_class_property_def post_table_def ModelTableOptions_default_def
      getattr_model_class_def)

lemma post_table_first_construction:
  "ModelTable_init post_framework 1 post_table actions_only =
     Inr \<lparr>self_model_class = None,
          self_columns = [(''actions'', snd (hd actions_only)),
                          (''tags'', field_column post_framework 1 [''tags''] ''tags'' ''Tags'')],
          class_columns = [(''actions'', snd (hd actions_only)),
                           (''tags'', field_column post_framework 1 [''tags''] ''tags'' ''Tags'')]\<rparr>"
proof -
  have pop: "SortedDict_pop ''actions'' actions_only = Inr (snd (hd actions_only), [])"
    by (simp add: SortedDict_pop_def actions_only_def)
  have flds: "fields_for_model post_framework ''Post'' (columns (meta post_table)) = [(''tags'', ''Tags'')]"
    and many: "many_to_many post_framework ''Post'' = [''tags'']"
    and ord: "dict_order post_framework = small_dict_order"
    by (simp_all add: post_framework_def)
  have slots: "get_table_data_attr post_table = Generic"
    by (simp add: post_table_def)
  show ?thesis
    by (simp add: ModelTable_init_def post_table_model pop flds many ord slots Let_def
        dict_items_def small_dict_order_tags_actions SortedDict_update_def)
qed

theorem synthesized_columns_carry_label_and_filter_witness:
  "\<exists>t c. ModelTable_init post_framework 1 post_table actions_only = Inr t
     \<and> map_of (make_columns post_framework 1 [''tags''] [(''tags'', ''Tags'')] []) ''tags'' = Some c
     \<and> map_of (self_columns t) ''tags'' = Some c
     \<and> verbose_name c = Some ''Tags'' \<and> form_field c = Some ''Tags'' \<and> filters c = [filter_m2m]"
proof -
  obtain t where init: "ModelTable_init post_framework 1 post_table actions_only = Inr t"
    using post_table_first_construction by blast
  have model: "fst (model_class_property post_framework post_table None) = Inr (PyModel ''Post'')"
    by (simp add: post_table_model)
  have fld: "(''tags'', ''Tags'') \<in> set (fields_for_model post_framework ''Post'' (columns (meta post_table)))"
    by (simp add: post_framework_def)
  have dist: "distinct (map fst (fields_for_model post_framework ''Post'' (columns (meta post_table))))"
    by (simp add: post_framework_def)
  have ord: "mset (dict_order post_framework ks) = mset ks" for ks
    by (simp add: post_framework_def mset_small_dict_order)
  have "\<exists>c. map_of (make_columns post_framework 1 [''tags''] [(''tags'', ''Tags'')] []) ''tags'' = Some c
     \<and> map_of (self_columns t) ''tags'' = Some c
     \<and> verbose_name c = Some ''Tags'' \<and> form_field c = Some ''Tags'' \<and> filters c = [filter_m2m]"
    using synthesized_columns_carry_label_and_filter [OF model fld dist ord, of 1 actions_only t] init
    by (simp add: post_framework_def)
  then show ?thesis using init by (intro exI [of _ t]) simp
qed

text \<open>
  Claim C7 says that after the merge the \<^verbatim>\<open>actions\<close> column is the last column of the
  registry.  \<^verbatim>\<open>__init__\<close> pops it and assigns it last, but into the plain dictionary, whose
  iteration order \<^verbatim>\<open>_columns.update\<close> then follows.  For the first instance of a table
  over the model with the field \<^verbatim>\<open>tags\<close>, the registry of the instance and that of the
  class both end as \<^verbatim>\<open>actions\<close>, \<^verbatim>\<open>tags\<close>.  A second instance of the same class finds
  \<^verbatim>\<open>tags\<close> already registered and ends with \<^verbatim>\<open>tags\<close>, \<^verbatim>\<open>actions\<close>.
\<close>

theorem actions_column_not_last_in_first_instance:
  "map_sum id (\<lambda>t. map fst (self_columns t))
     (ModelTable_init post_framework 1 post_table actions_only) = Inr [''actions'', ''tags'']
   \<and> map_sum id (\<lambda>t. map fst (class_columns t))
     (ModelTable_init post_framework 1 post_table actions_only) = Inr [''actions'', ''tags'']
   \<and> last [''actions'', ''tags''] \<noteq> ''actions''
   \<and> (case ModelTable_init post_framework 1 post_table actions_only of
         Inl e \<Rightarrow> Inl e
       | Inr t \<Rightarrow> map_sum id (\<lambda>t'. map fst (self_columns t'))
                   (ModelTable_init post_framework 2 post_table (class_columns t)))
       = Inr [''tags'', ''actions'']"
proof -
  have flds: "fields_for_model post_framework ''Post'' (columns (meta post_table)) = [(''tags'', ''Tags'')]"
    and many: "many_to_many post_framework ''Post'' = [''tags'']"
    and ord: "dict_order post_framework = small_dict_order"
    by (simp_all add: post_framework_def)
  have slots: "get_table_data_attr post_table = Generic"
    by (simp add: post_table_def)
  have second: "map_sum id (\<lambda>t'. map fst (self_columns t'))
         (ModelTable_init post_framework 2 post_table
            [(''actions'', a), (''tags'', c)]) = Inr [''tags'', ''actions'']" for a c
    by (simp add: ModelTable_init_def post_table_model flds many ord slots Let_def
        dict_items_def small_dict_order_tags_actions SortedDict_update_def SortedDict_pop_def)
  show ?thesis using post_table_first_construction second by simp
qed

end
